theory Spec2Isabelle
  imports Main
begin

section \<open>Concrete value types (Circle.h, Square.h, main.cpp)\<close>

text \<open>
  The program stores a \<^verbatim>\<open>double\<close> in a circle or a square and does nothing with it
  but print it. The type of doubles is therefore the type parameter \<open>'d\<close>, and the
  standard library's \<^verbatim>\<open>std::ostream::operator<<(double)\<close>, which is not code of this
  repository, is the parameter \<open>fmt\<close> of every function that prints.
\<close>

datatype 'd Circle = Circle (getRadius: 'd)

datatype 'd Square = Square (getSide: 'd)

datatype Triangle = Triangle

section \<open>Standard output and the drawShape overloads (main.cpp)\<close>

text \<open>
  \<^verbatim>\<open>std::cout\<close> is the string of bytes written so far; every insertion appends.
  \<^verbatim>\<open>std::endl\<close> writes a line feed. The triangle's literal is the two bytes
  \<^verbatim>\<open>CE 94\<close> of the source file.
\<close>

definition endl :: string where
  "endl = [CHR 0x0A]"

definition drawShape_Circle :: "('d \<Rightarrow> string) \<Rightarrow> 'd Circle \<Rightarrow> string \<Rightarrow> string" where
  "drawShape_Circle fmt circle out = ((out @ ''Circle: '') @ fmt (getRadius circle)) @ endl"

definition drawShape_Square :: "('d \<Rightarrow> string) \<Rightarrow> 'd Square \<Rightarrow> string \<Rightarrow> string" where
  "drawShape_Square fmt square out = ((out @ ''Square: '') @ fmt (getSide square)) @ endl"

definition drawShape_Triangle :: "Triangle \<Rightarrow> string \<Rightarrow> string" where
  "drawShape_Triangle t out = (out @ [CHR 0xCE, CHR 0x94]) @ endl"

section \<open>The holder: ShapeConcept and ShapeModel<T> (Shape.h)\<close>

text \<open>
  An object whose static type is \<^verbatim>\<open>ShapeConcept\<close> is a \<^verbatim>\<open>ShapeModel<T>\<close> for one of
  the three types the program wraps. The constructor of the datatype is the dynamic
  type (the virtual table), its argument is the member \<^verbatim>\<open>object\<close>. A virtual call is
  the case distinction on the constructor.
\<close>

datatype 'd ShapeConcept =
    ShapeModel_Circle "'d Circle"
  | ShapeModel_Square "'d Square"
  | ShapeModel_Triangle Triangle

text \<open>\<^verbatim>\<open>ShapeModel<T>::draw\<close>: \<^verbatim>\<open>drawShape(object)\<close>, the overload for \<^verbatim>\<open>T\<close>.\<close>

fun ShapeModel_draw :: "('d \<Rightarrow> string) \<Rightarrow> 'd ShapeConcept \<Rightarrow> string \<Rightarrow> string" where
  "ShapeModel_draw fmt (ShapeModel_Circle object) out = drawShape_Circle fmt object out"
| "ShapeModel_draw fmt (ShapeModel_Square object) out = drawShape_Square fmt object out"
| "ShapeModel_draw fmt (ShapeModel_Triangle object) out = drawShape_Triangle object out"

section \<open>The free store\<close>

text \<open>
  Holders live on the free store. An address is an index into the list of all cells
  ever allocated; a cell is \<open>None\<close> once it has been deleted. \<^verbatim>\<open>std::make_unique\<close>
  allocates the next cell, so a new address differs from every address in use.
  A \<^verbatim>\<open>std::unique_ptr<ShapeConcept>\<close> is an \<open>addr option\<close>, \<open>None\<close> being the null pointer.
\<close>

type_synonym addr = nat

type_synonym 'd free_store = "'d ShapeConcept option list"

text \<open>
  The program throws no exception and checks nothing. What can go wrong is undefined
  behaviour: dereferencing a null pointer, dereferencing or deleting a pointer to a
  holder that has been deleted, and using a Shape object that is not alive. Each is a
  fault at which the model stops.
\<close>

datatype fault =
    Null_Dereference
  | Dangling_Pointer
  | Dead_Object

definition deref :: "'d free_store \<Rightarrow> addr \<Rightarrow> 'd ShapeConcept option" where
  "deref h a = (if a < length h then h ! a else None)"

definition make_unique :: "'d ShapeConcept \<Rightarrow> 'd free_store \<Rightarrow> addr \<times> 'd free_store" where
  "make_unique m h = (length h, h @ [Some m])"

text \<open>The deleter of the \<^verbatim>\<open>unique_ptr\<close>: nothing for the null pointer.\<close>

definition delete_holder :: "addr option \<Rightarrow> 'd free_store \<Rightarrow> fault + 'd free_store" where
  "delete_holder p h =
     (case p of
        None \<Rightarrow> Inr h
      | Some a \<Rightarrow> (if deref h a = None then Inl Dangling_Pointer else Inr (h[a := None])))"

text \<open>
  \<^verbatim>\<open>ShapeModel<T>::clone\<close>: \<^verbatim>\<open>std::make_unique<ShapeModel>(*this)\<close>, a new holder of
  the same dynamic type whose \<^verbatim>\<open>object\<close> is copied from this one.
\<close>

fun ShapeModel_clone :: "'d ShapeConcept \<Rightarrow> 'd free_store \<Rightarrow> addr \<times> 'd free_store" where
  "ShapeModel_clone (ShapeModel_Circle object) h = make_unique (ShapeModel_Circle object) h"
| "ShapeModel_clone (ShapeModel_Square object) h = make_unique (ShapeModel_Square object) h"
| "ShapeModel_clone (ShapeModel_Triangle object) h = make_unique (ShapeModel_Triangle object) h"

section \<open>The wrapper: Shape (Shape.h)\<close>

text \<open>
  A \<^verbatim>\<open>Shape\<close> has the one member \<^verbatim>\<open>pimpl\<close>. Shape objects have an identity (a
  \<^verbatim>\<open>Shape &\<close> is a \<open>ref\<close>), since assignment may be given the same object on both
  sides. The state of the program is the store of the Shape objects that are alive,
  the free store and what has been written to \<^verbatim>\<open>std::cout\<close>.
\<close>

type_synonym ref = nat

record Shape =
  pimpl :: "addr option"

record 'd state =
  shapes :: "ref \<rightharpoonup> Shape"
  heap :: "'d free_store"
  cout :: string

definition initial :: "'d state" where
  "initial = \<lparr>shapes = Map.empty, heap = [], cout = []\<rparr>"

definition andThen :: "fault + 'a \<Rightarrow> ('a \<Rightarrow> fault + 'b) \<Rightarrow> fault + 'b" where
  "andThen r f = (case r of Inl e \<Rightarrow> Inl e | Inr x \<Rightarrow> f x)"

text \<open>
  \<^verbatim>\<open>s.pimpl->\<close>: the source dereferences without a check. Dereferencing the null
  pointer is undefined behaviour, which the model records as a fault.
\<close>

definition pimpl_arrow :: "'d state \<Rightarrow> ref \<Rightarrow> fault + 'd ShapeConcept" where
  "pimpl_arrow st s =
     (case shapes st s of
        None \<Rightarrow> Inl Dead_Object
      | Some sh \<Rightarrow>
          (case pimpl sh of
             None \<Rightarrow> Inl Null_Dereference
           | Some a \<Rightarrow>
               (case deref (heap st) a of
                  None \<Rightarrow> Inl Dangling_Pointer
                | Some m \<Rightarrow> Inr m)))"

text \<open>
  \<^verbatim>\<open>template <typename T> Shape(T const &x)\<close>. The template parameter is the type
  variable \<open>'t\<close>; the instance \<^verbatim>\<open>ShapeModel<T>\<close> is passed as its constructor.
\<close>

definition Shape_ctor ::
  "('t \<Rightarrow> 'd ShapeConcept) \<Rightarrow> ref \<Rightarrow> 't \<Rightarrow> 'd state \<Rightarrow> 'd state" where
  "Shape_ctor ShapeModel_T this x st =
     (case make_unique (ShapeModel_T x) (heap st) of
        (a, h) \<Rightarrow> st\<lparr>shapes := (shapes st)(this \<mapsto> \<lparr>pimpl = Some a\<rparr>), heap := h\<rparr>)"

text \<open>\<^verbatim>\<open>Shape(Shape const &s)\<close>\<close>

definition Shape_copy_ctor :: "ref \<Rightarrow> ref \<Rightarrow> 'd state \<Rightarrow> fault + 'd state" where
  "Shape_copy_ctor this s st =
     andThen (pimpl_arrow st s) (\<lambda>m.
       case ShapeModel_clone m (heap st) of
         (a, h) \<Rightarrow>
           Inr (st\<lparr>shapes := (shapes st)(this \<mapsto> \<lparr>pimpl = Some a\<rparr>),
                   heap := h,
                   cout := (cout st @ ''copy ctor'') @ endl\<rparr>))"

text \<open>
  \<^verbatim>\<open>Shape &operator=(Shape const &s)\<close>. The right-hand side
  \<^verbatim>\<open>s.pimpl->clone()\<close> is evaluated first; the move assignment of the
  \<^verbatim>\<open>unique_ptr\<close> then stores the new pointer and deletes the old holder.
\<close>

definition Shape_copy_assign :: "ref \<Rightarrow> ref \<Rightarrow> 'd state \<Rightarrow> fault + 'd state" where
  "Shape_copy_assign this s st =
     andThen (pimpl_arrow st s) (\<lambda>m.
       case ShapeModel_clone m (heap st) of
         (a, h) \<Rightarrow>
           (case shapes st this of
              None \<Rightarrow> Inl Dead_Object
            | Some dst \<Rightarrow>
                andThen (delete_holder (pimpl dst) h) (\<lambda>h'.
                  Inr (st\<lparr>shapes := (shapes st)(this \<mapsto> \<lparr>pimpl = Some a\<rparr>),
                          heap := h',
                          cout := (cout st @ ''copy assign'') @ endl\<rparr>))))"

text \<open>
  \<^verbatim>\<open>Shape(Shape &&s) = default\<close>: the move constructor of the \<^verbatim>\<open>unique_ptr\<close>
  takes the pointer released by the source.
\<close>

definition Shape_move_ctor :: "ref \<Rightarrow> ref \<Rightarrow> 'd state \<Rightarrow> fault + 'd state" where
  "Shape_move_ctor this s st =
     (case shapes st s of
        None \<Rightarrow> Inl Dead_Object
      | Some src \<Rightarrow>
          Inr (st\<lparr>shapes := ((shapes st)(s \<mapsto> \<lparr>pimpl = None\<rparr>))(this \<mapsto> \<lparr>pimpl = pimpl src\<rparr>)\<rparr>))"

text \<open>
  \<^verbatim>\<open>Shape &operator=(Shape &&s) = default\<close>: the move assignment of the
  \<^verbatim>\<open>unique_ptr\<close> is \<^verbatim>\<open>reset(s.pimpl.release())\<close>: the source is set to null, then
  the destination stores the released pointer and deletes the holder it had.
\<close>

definition Shape_move_assign :: "ref \<Rightarrow> ref \<Rightarrow> 'd state \<Rightarrow> fault + 'd state" where
  "Shape_move_assign this s st =
     (case shapes st s of
        None \<Rightarrow> Inl Dead_Object
      | Some src \<Rightarrow>
          (let released = (shapes st)(s \<mapsto> \<lparr>pimpl = None\<rparr>) in
           case released this of
             None \<Rightarrow> Inl Dead_Object
           | Some dst \<Rightarrow>
               andThen (delete_holder (pimpl dst) (heap st)) (\<lambda>h'.
                 Inr (st\<lparr>shapes := released(this \<mapsto> \<lparr>pimpl = pimpl src\<rparr>),
                         heap := h'\<rparr>))))"

text \<open>The implicit destructor: the \<^verbatim>\<open>unique_ptr\<close> deletes the holder.\<close>

definition Shape_dtor :: "ref \<Rightarrow> 'd state \<Rightarrow> fault + 'd state" where
  "Shape_dtor this st =
     (case shapes st this of
        None \<Rightarrow> Inl Dead_Object
      | Some sh \<Rightarrow>
          andThen (delete_holder (pimpl sh) (heap st)) (\<lambda>h'.
            Inr (st\<lparr>shapes := (shapes st)(this := None), heap := h'\<rparr>)))"

text \<open>\<^verbatim>\<open>friend void draw(Shape const &shape)\<close>: \<^verbatim>\<open>shape.pimpl->draw()\<close>\<close>

definition draw :: "('d \<Rightarrow> string) \<Rightarrow> ref \<Rightarrow> 'd state \<Rightarrow> fault + 'd state" where
  "draw fmt shape st =
     andThen (pimpl_arrow st shape) (\<lambda>m.
       Inr (st\<lparr>cout := ShapeModel_draw fmt m (cout st)\<rparr>))"

text \<open>
  \<^verbatim>\<open>drawAllShaped(std::vector<Shape> const &shapes)\<close>: the vector is the list of its
  elements, in order.
\<close>

fun drawAllShaped :: "('d \<Rightarrow> string) \<Rightarrow> ref list \<Rightarrow> 'd state \<Rightarrow> fault + 'd state" where
  "drawAllShaped fmt [] st = Inr st"
| "drawAllShaped fmt (shape # rest) st =
     andThen (draw fmt shape st) (drawAllShaped fmt rest)"

text \<open>The holder a Shape owns, if it is alive and its pointer is not null.\<close>

definition held :: "'d state \<Rightarrow> ref \<Rightarrow> 'd ShapeConcept option" where
  "held st r =
     (case shapes st r of
        None \<Rightarrow> None
      | Some sh \<Rightarrow> (case pimpl sh of None \<Rightarrow> None | Some a \<Rightarrow> deref (heap st) a))"

text \<open>The pointer a Shape stores; \<open>None\<close> for the null pointer and for a dead object.\<close>

definition pimpl_of :: "'d state \<Rightarrow> ref \<Rightarrow> addr option" where
  "pimpl_of st r = (case shapes st r of None \<Rightarrow> None | Some sh \<Rightarrow> pimpl sh)"

section \<open>Exclusive ownership\<close>

text \<open>
  What \<^verbatim>\<open>std::unique_ptr\<close> is meant to maintain: a pointer that is not null points to
  a holder that has not been deleted, and no two Shape objects point to the same holder.
\<close>

definition well_formed :: "'d state \<Rightarrow> bool" where
  "well_formed st \<longleftrightarrow>
     (\<forall>r a. pimpl_of st r = Some a \<longrightarrow> deref (heap st) a \<noteq> None)
   \<and> (\<forall>r r' a. pimpl_of st r = Some a \<longrightarrow> pimpl_of st r' = Some a \<longrightarrow> r = r')"

text \<open>
  The operations a client of \<^verbatim>\<open>Shape.h\<close> can perform, and the states a client can
  reach with them from the empty state.
\<close>

datatype 'd operation =
    Wrap_Circle ref "'d Circle"
  | Wrap_Square ref "'d Square"
  | Wrap_Triangle ref Triangle
  | Copy_Construct ref ref
  | Copy_Assign ref ref
  | Move_Construct ref ref
  | Move_Assign ref ref
  | Destroy ref
  | Draw ref

fun exec :: "('d \<Rightarrow> string) \<Rightarrow> 'd operation \<Rightarrow> 'd state \<Rightarrow> fault + 'd state" where
  "exec fmt (Wrap_Circle this x) st = Inr (Shape_ctor ShapeModel_Circle this x st)"
| "exec fmt (Wrap_Square this x) st = Inr (Shape_ctor ShapeModel_Square this x st)"
| "exec fmt (Wrap_Triangle this x) st = Inr (Shape_ctor ShapeModel_Triangle this x st)"
| "exec fmt (Copy_Construct this s) st = Shape_copy_ctor this s st"
| "exec fmt (Copy_Assign this s) st = Shape_copy_assign this s st"
| "exec fmt (Move_Construct this s) st = Shape_move_ctor this s st"
| "exec fmt (Move_Assign this s) st = Shape_move_assign this s st"
| "exec fmt (Destroy this) st = Shape_dtor this st"
| "exec fmt (Draw shape) st = draw fmt shape st"

inductive reachable :: "('d \<Rightarrow> string) \<Rightarrow> 'd state \<Rightarrow> bool" for fmt :: "'d \<Rightarrow> string" where
  start: "reachable fmt initial"
| step: "reachable fmt st \<Longrightarrow> exec fmt operation st = Inr st' \<Longrightarrow> reachable fmt st'"

text \<open>
  The Shape objects an operation may change: the object it constructs, assigns to or
  destroys, and the source of a move. Every other Shape object is only read, if at all.
\<close>

fun writes :: "'d operation \<Rightarrow> ref list" where
  "writes (Wrap_Circle this x) = [this]"
| "writes (Wrap_Square this x) = [this]"
| "writes (Wrap_Triangle this x) = [this]"
| "writes (Copy_Construct this s) = [this]"
| "writes (Copy_Assign this s) = [this]"
| "writes (Move_Construct this s) = [this, s]"
| "writes (Move_Assign this s) = [this, s]"
| "writes (Destroy this) = [this]"
| "writes (Draw shape) = []"

text \<open>A client program is a list of operations; it stops at the first fault.\<close>

fun run :: "('d \<Rightarrow> string) \<Rightarrow> 'd operation list \<Rightarrow> 'd state \<Rightarrow> fault + 'd state" where
  "run fmt [] st = Inr st"
| "run fmt (operation # rest) st = andThen (exec fmt operation st) (run fmt rest)"

text \<open>
  The program has no operation that changes a held value after it has been wrapped.
  To state that two wrappers share no state, \<open>write_through\<close> is the write that a
  mutating member of the held value would perform: it replaces the content of the
  holder that the \<^verbatim>\<open>pimpl\<close> of \<open>w\<close> points to.
\<close>

definition write_through :: "ref \<Rightarrow> 'd ShapeConcept \<Rightarrow> 'd state \<Rightarrow> 'd state" where
  "write_through w v st =
     (case pimpl_of st w of
        None \<Rightarrow> st
      | Some a \<Rightarrow> st\<lparr>heap := (heap st)[a := Some v]\<rparr>)"

section \<open>Which constructor of ShapeModel<T> the wrapper selects\<close>

text \<open>
  \<^verbatim>\<open>ShapeModel<T>\<close> has two converting constructors. Overload resolution selects
  \<^verbatim>\<open>ShapeModel(T &&value)\<close>, which initialises \<^verbatim>\<open>object{std::forward<T>(value)}\<close> by
  \<^verbatim>\<open>T\<close>'s move constructor, for an rvalue that is not const, and
  \<^verbatim>\<open>ShapeModel(T const &value)\<close>, which initialises \<^verbatim>\<open>object{value}\<close> by \<^verbatim>\<open>T\<close>'s copy
  constructor, for every other argument.
\<close>

datatype category = lvalue | rvalue

datatype constness = non_const | const

datatype construction = move_constructed | copy_constructed

fun ShapeModel_ctor :: "category \<Rightarrow> constness \<Rightarrow> construction" where
  "ShapeModel_ctor rvalue non_const = move_constructed"
| "ShapeModel_ctor c k = copy_constructed"

text \<open>
  \<^verbatim>\<open>template <typename T> Shape(T const &x) : pimpl{std::make_unique<ShapeModel<T>>(x)}\<close>.
  An argument of either category, const or not, binds to the parameter \<^verbatim>\<open>x\<close>; inside
  the constructor the expression \<^verbatim>\<open>x\<close> is an lvalue of type \<^verbatim>\<open>T const\<close>, and
  \<^verbatim>\<open>std::make_unique\<close> forwards it as it receives it.
\<close>

definition Shape_ctor_object :: "category \<Rightarrow> constness \<Rightarrow> construction" where
  "Shape_ctor_object c k = ShapeModel_ctor lvalue const"

section \<open>The first two statements of main\<close>

text \<open>
  The state after \<^verbatim>\<open>Shape square{Square(d)}; Shape circle{Circle{d}};\<close> in an empty
  program: \<^verbatim>\<open>square\<close> is the Shape object 0 and \<^verbatim>\<open>circle\<close> the Shape object 1.
\<close>

abbreviation two_wrappers :: "'d \<Rightarrow> 'd state" where
  "two_wrappers d \<equiv>
     Shape_ctor ShapeModel_Circle 1 (Circle d) (Shape_ctor ShapeModel_Square 0 (Square d) initial)"

section \<open>Basic facts\<close>

lemma andThen_Inr [simp]: "andThen (Inr x) f = f x"
  by (simp add: andThen_def)

lemma andThen_Inl [simp]: "andThen (Inl e) f = Inl e"
  by (simp add: andThen_def)

lemma deref_make_unique_new [simp]: "deref (h @ [Some m]) (length h) = Some m"
  by (simp add: deref_def)

lemma deref_make_unique_old: "a < length h \<Longrightarrow> deref (h @ [x]) a = deref h a"
  by (simp add: deref_def nth_append)

lemma deref_Some_less: "deref h a = Some m \<Longrightarrow> a < length h"
  by (simp add: deref_def split: if_splits)

lemma ShapeModel_clone_eq [simp]: "ShapeModel_clone m h = (length h, h @ [Some m])"
  by (cases m) (simp_all add: make_unique_def)

lemma pimpl_arrow_held:
  "held st r = Some m \<Longrightarrow> pimpl_arrow st r = Inr m"
  by (auto simp add: held_def pimpl_arrow_def split: option.splits)

lemma draw_held:
  "held st r = Some m \<Longrightarrow> draw fmt r st = Inr (st\<lparr>cout := ShapeModel_draw fmt m (cout st)\<rparr>)"
  by (simp add: draw_def pimpl_arrow_held)

lemma held_Shape_ctor_this [simp]:
  "held (Shape_ctor ShapeModel_T this x st) this = Some (ShapeModel_T x)"
  by (simp add: held_def Shape_ctor_def make_unique_def)

section \<open>Exclusive ownership is preserved\<close>

lemma well_formed_initial: "well_formed initial"
  by (simp add: well_formed_def pimpl_of_def initial_def)

lemma well_formedI:
  assumes "\<And>r a. pimpl_of st r = Some a \<Longrightarrow> \<exists>m. deref (heap st) a = Some m"
    and "\<And>r r' a. pimpl_of st r = Some a \<Longrightarrow> pimpl_of st r' = Some a \<Longrightarrow> r = r'"
  shows "well_formed st"
  unfolding well_formed_def using assms by blast

lemma well_formed_valid:
  "well_formed st \<Longrightarrow> pimpl_of st r = Some a \<Longrightarrow> \<exists>m. deref (heap st) a = Some m"
  by (auto simp add: well_formed_def)

lemma well_formed_less:
  "well_formed st \<Longrightarrow> pimpl_of st r = Some a \<Longrightarrow> a < length (heap st)"
  by (auto dest: well_formed_valid deref_Some_less)

lemma well_formed_unique:
  "well_formed st \<Longrightarrow> pimpl_of st r = Some a \<Longrightarrow> pimpl_of st r' = Some a \<Longrightarrow> r = r'"
  unfolding well_formed_def by blast

lemma deref_update: "deref (h[a := x]) b = (if b = a \<and> a < length h then x else deref h b)"
  by (auto simp add: deref_def)

lemma deref_append: "deref (h @ [x]) b = (if b = length h then x else deref h b)"
  by (auto simp add: deref_def nth_append)

lemma pimpl_of_Shape_ctor:
  "pimpl_of (Shape_ctor ShapeModel_T this x st) r =
     (if r = this then Some (length (heap st)) else pimpl_of st r)"
  by (simp add: pimpl_of_def Shape_ctor_def make_unique_def)

lemma heap_Shape_ctor:
  "heap (Shape_ctor ShapeModel_T this x st) = heap st @ [Some (ShapeModel_T x)]"
  by (simp add: Shape_ctor_def make_unique_def)

lemma well_formed_alloc:
  assumes wf: "well_formed st"
    and p: "\<And>r. pimpl_of st' r = (if r = this then Some (length (heap st)) else pimpl_of st r)"
    and h: "heap st' = heap st @ [Some m]"
  shows "well_formed st'"
proof (rule well_formedI)
  fix r a assume "pimpl_of st' r = Some a"
  then show "\<exists>m. deref (heap st') a = Some m"
    using well_formed_valid [OF wf, of r a] well_formed_less [OF wf, of r a]
    by (auto simp add: p h deref_append split: if_splits)
next
  fix r r' a assume "pimpl_of st' r = Some a" "pimpl_of st' r' = Some a"
  then show "r = r'"
    using well_formed_less [OF wf, of r a] well_formed_less [OF wf, of r' a]
      well_formed_unique [OF wf, of r a r']
    by (auto simp add: p split: if_splits)
qed

lemma well_formed_Shape_ctor:
  "well_formed st \<Longrightarrow> well_formed (Shape_ctor ShapeModel_T this x st)"
  by (rule well_formed_alloc [where this = this and m = "ShapeModel_T x"])
     (simp_all add: pimpl_of_Shape_ctor heap_Shape_ctor)

lemma Shape_copy_ctor_Inr:
  assumes "Shape_copy_ctor this s st = Inr st'"
  obtains m where "held st s = Some m"
    and "st' = st\<lparr>shapes := (shapes st)(this \<mapsto> \<lparr>pimpl = Some (length (heap st))\<rparr>),
                   heap := heap st @ [Some m],
                   cout := (cout st @ ''copy ctor'') @ endl\<rparr>"
  using assms
  by (auto simp add: Shape_copy_ctor_def pimpl_arrow_def held_def split: option.splits)

lemma well_formed_Shape_copy_ctor:
  assumes "well_formed st" and "Shape_copy_ctor this s st = Inr st'"
  shows "well_formed st'"
proof -
  from assms(2) obtain m where
    st': "st' = st\<lparr>shapes := (shapes st)(this \<mapsto> \<lparr>pimpl = Some (length (heap st))\<rparr>),
                   heap := heap st @ [Some m],
                   cout := (cout st @ ''copy ctor'') @ endl\<rparr>"
    by (rule Shape_copy_ctor_Inr)
  show ?thesis
    by (rule well_formed_alloc [OF assms(1), where this = this and m = m])
       (simp_all add: st' pimpl_of_def)
qed

lemma well_formed_cout:
  "well_formed st \<Longrightarrow> well_formed (st\<lparr>cout := out\<rparr>)"
  by (simp add: well_formed_def pimpl_of_def)

lemma well_formed_draw:
  "well_formed st \<Longrightarrow> draw fmt r st = Inr st' \<Longrightarrow> well_formed st'"
  by (auto simp add: draw_def andThen_def well_formed_cout split: sum.splits)

lemma well_formed_Shape_move_ctor:
  assumes wf: "well_formed st" and "Shape_move_ctor this s st = Inr st'"
  shows "well_formed st'"
proof -
  from assms(2) obtain src where src: "shapes st s = Some src"
    and st': "st' = st\<lparr>shapes := ((shapes st)(s \<mapsto> \<lparr>pimpl = None\<rparr>))(this \<mapsto> \<lparr>pimpl = pimpl src\<rparr>)\<rparr>"
    by (auto simp add: Shape_move_ctor_def split: option.splits)
  have p: "pimpl_of st' r = (if r = this then pimpl_of st s else if r = s then None else pimpl_of st r)" for r
    by (simp add: st' pimpl_of_def src)
  have h: "heap st' = heap st" by (simp add: st')
  show ?thesis
  proof (rule well_formedI)
    fix r a assume "pimpl_of st' r = Some a"
    then show "\<exists>m. deref (heap st') a = Some m"
      using well_formed_valid [OF wf, of r a] well_formed_valid [OF wf, of s a]
      by (auto simp add: p h split: if_splits)
  next
    fix r r' a assume a: "pimpl_of st' r = Some a" "pimpl_of st' r' = Some a"
    have 1: "x \<noteq> this \<Longrightarrow> pimpl_of st' x = Some a \<Longrightarrow> x \<noteq> s \<and> pimpl_of st x = Some a" for x
      by (simp add: p split: if_splits)
    have 2: "pimpl_of st' this = Some a \<Longrightarrow> pimpl_of st s = Some a"
      by (simp add: p)
    show "r = r'"
      using a 1 [of r] 1 [of r'] 2 well_formed_unique [OF wf, of _ a]
      by metis
  qed
qed

lemma well_formed_release:
  assumes wf: "well_formed st"
    and p: "\<And>r. pimpl_of st' r = (if r = this then None else pimpl_of st r)"
    and h: "heap st' = (case pimpl_of st this of None \<Rightarrow> heap st | Some a \<Rightarrow> (heap st)[a := None])"
  shows "well_formed st'"
proof (rule well_formedI)
  fix r a assume "pimpl_of st' r = Some a"
  then show "\<exists>m. deref (heap st') a = Some m"
    using well_formed_valid [OF wf, of r a] well_formed_unique [OF wf, of r a this]
    by (auto simp add: p h deref_update split: if_splits option.splits)
next
  fix r r' a assume "pimpl_of st' r = Some a" "pimpl_of st' r' = Some a"
  then show "r = r'"
    using well_formed_unique [OF wf, of r a r']
    by (auto simp add: p split: if_splits)
qed


lemma Shape_dtor_Inr:
  assumes "Shape_dtor this st = Inr st'"
  obtains sh where "shapes st this = Some sh"
    and "st' = st\<lparr>shapes := (shapes st)(this := None),
                   heap := (case pimpl sh of None \<Rightarrow> heap st | Some a \<Rightarrow> (heap st)[a := None])\<rparr>"
  using assms
  by (auto simp add: Shape_dtor_def delete_holder_def andThen_def
      split: option.splits if_splits sum.splits)

lemma well_formed_Shape_dtor:
  assumes wf: "well_formed st" and "Shape_dtor this st = Inr st'"
  shows "well_formed st'"
proof -
  from assms(2) obtain sh where sh: "shapes st this = Some sh"
    and st': "st' = st\<lparr>shapes := (shapes st)(this := None),
                   heap := (case pimpl sh of None \<Rightarrow> heap st | Some a \<Rightarrow> (heap st)[a := None])\<rparr>"
    by (rule Shape_dtor_Inr)
  show ?thesis
    by (rule well_formed_release [OF wf, where this = this])
       (simp_all add: st' pimpl_of_def sh)
qed

lemma well_formed_replace:
  assumes wf: "well_formed st"
    and p: "\<And>r. pimpl_of st' r = (if r = this then Some (length (heap st)) else pimpl_of st r)"
    and h: "heap st' = (case pimpl_of st this of None \<Rightarrow> heap st @ [Some m]
                        | Some a \<Rightarrow> (heap st @ [Some m])[a := None])"
  shows "well_formed st'"
proof (rule well_formedI)
  fix r a assume a: "pimpl_of st' r = Some a"
  show "\<exists>m. deref (heap st') a = Some m"
  proof (cases "r = this")
    case True
    with a have "a = length (heap st)" by (simp add: p)
    moreover have "pimpl_of st this = Some b \<Longrightarrow> b < length (heap st)" for b
      by (rule well_formed_less [OF wf])
    ultimately show ?thesis
      by (auto simp add: h deref_update deref_append split: option.splits)
  next
    case False
    with a have old: "pimpl_of st r = Some a" by (simp add: p)
    have "pimpl_of st this \<noteq> Some a"
      using well_formed_unique [OF wf old] False by blast
    moreover have "a < length (heap st)"
      by (rule well_formed_less [OF wf old])
    moreover obtain x where "deref (heap st) a = Some x"
      using well_formed_valid [OF wf old] by blast
    ultimately show ?thesis
      by (auto simp add: h deref_update deref_append split: option.splits)
  qed
next
  fix r r' a assume a: "pimpl_of st' r = Some a" "pimpl_of st' r' = Some a"
  have 1: "x \<noteq> this \<Longrightarrow> pimpl_of st' x = Some a \<Longrightarrow> pimpl_of st x = Some a \<and> a < length (heap st)" for x
    using well_formed_less [OF wf, of x a] by (simp add: p)
  have 2: "pimpl_of st' this = Some a \<Longrightarrow> a = length (heap st)"
    by (simp add: p)
  show "r = r'"
    using a 1 [of r] 1 [of r'] 2 well_formed_unique [OF wf, of r a r']
    by (metis less_irrefl)
qed

lemma Shape_copy_assign_Inr:
  assumes "Shape_copy_assign this s st = Inr st'"
  obtains m dst where "held st s = Some m" and "shapes st this = Some dst"
    and "st' = st\<lparr>shapes := (shapes st)(this \<mapsto> \<lparr>pimpl = Some (length (heap st))\<rparr>),
                   heap := (case pimpl dst of None \<Rightarrow> heap st @ [Some m]
                            | Some a \<Rightarrow> (heap st @ [Some m])[a := None]),
                   cout := (cout st @ ''copy assign'') @ endl\<rparr>"
  using assms
  by (auto simp add: Shape_copy_assign_def pimpl_arrow_def held_def delete_holder_def andThen_def
      split: option.splits if_splits sum.splits)

lemma well_formed_Shape_copy_assign:
  assumes wf: "well_formed st" and "Shape_copy_assign this s st = Inr st'"
  shows "well_formed st'"
proof -
  from assms(2) obtain m dst where dst: "shapes st this = Some dst"
    and st': "st' = st\<lparr>shapes := (shapes st)(this \<mapsto> \<lparr>pimpl = Some (length (heap st))\<rparr>),
                   heap := (case pimpl dst of None \<Rightarrow> heap st @ [Some m]
                            | Some a \<Rightarrow> (heap st @ [Some m])[a := None]),
                   cout := (cout st @ ''copy assign'') @ endl\<rparr>"
    by (rule Shape_copy_assign_Inr)
  show ?thesis
    by (rule well_formed_replace [OF wf, where this = this and m = m])
       (simp_all add: st' pimpl_of_def dst)
qed

lemma Shape_move_assign_Inr:
  assumes "Shape_move_assign this s st = Inr st'"
  obtains src dst where "shapes st s = Some src" and "shapes st this = Some dst"
    and "st' = st\<lparr>shapes := ((shapes st)(s \<mapsto> \<lparr>pimpl = None\<rparr>))(this \<mapsto> \<lparr>pimpl = pimpl src\<rparr>),
                   heap := (if this = s then heap st
                            else case pimpl dst of None \<Rightarrow> heap st
                                 | Some a \<Rightarrow> (heap st)[a := None])\<rparr>"
  using assms
  by (auto simp add: Shape_move_assign_def delete_holder_def andThen_def Let_def
      split: option.splits if_splits sum.splits)

lemma well_formed_Shape_move_assign:
  assumes wf: "well_formed st" and "Shape_move_assign this s st = Inr st'"
  shows "well_formed st'"
proof -
  from assms(2) obtain src dst where src: "shapes st s = Some src"
    and dst: "shapes st this = Some dst"
    and st': "st' = st\<lparr>shapes := ((shapes st)(s \<mapsto> \<lparr>pimpl = None\<rparr>))(this \<mapsto> \<lparr>pimpl = pimpl src\<rparr>),
                   heap := (if this = s then heap st
                            else case pimpl dst of None \<Rightarrow> heap st
                                 | Some a \<Rightarrow> (heap st)[a := None])\<rparr>"
    by (rule Shape_move_assign_Inr)
  have p: "pimpl_of st' r = (if r = this then pimpl_of st s else if r = s then None else pimpl_of st r)" for r
    by (simp add: st' pimpl_of_def src)
  show ?thesis
  proof (cases "this = s")
    case True
    then have "pimpl_of st' r = pimpl_of st r" for r by (simp add: p)
    moreover have "heap st' = heap st" using True by (simp add: st')
    ultimately show ?thesis using wf by (simp add: well_formed_def)
  next
    case False
    then have h: "heap st' = (case pimpl_of st this of None \<Rightarrow> heap st | Some a \<Rightarrow> (heap st)[a := None])"
      by (simp add: st' pimpl_of_def dst)
    show ?thesis
    proof (rule well_formedI)
      fix r a assume a: "pimpl_of st' r = Some a"
      then have "\<exists>x. x \<noteq> this \<and> pimpl_of st x = Some a"
        using False by (auto simp add: p split: if_splits)
      then obtain x where x: "x \<noteq> this" "pimpl_of st x = Some a" by blast
      have "pimpl_of st this \<noteq> Some a"
        using well_formed_unique [OF wf x(2)] x(1) by blast
      moreover obtain y where "deref (heap st) a = Some y"
        using well_formed_valid [OF wf x(2)] by blast
      ultimately show "\<exists>m. deref (heap st') a = Some m"
        by (auto simp add: h deref_update split: option.splits)
    next
      fix r r' a assume a: "pimpl_of st' r = Some a" "pimpl_of st' r' = Some a"
      have 1: "x \<noteq> this \<Longrightarrow> pimpl_of st' x = Some a \<Longrightarrow> x \<noteq> s \<and> pimpl_of st x = Some a" for x
        by (simp add: p split: if_splits)
      have 2: "pimpl_of st' this = Some a \<Longrightarrow> pimpl_of st s = Some a"
        by (simp add: p)
      show "r = r'"
        using a 1 [of r] 1 [of r'] 2 well_formed_unique [OF wf, of _ a]
        by metis
    qed
  qed
qed

lemma well_formed_exec:
  "well_formed st \<Longrightarrow> exec fmt operation st = Inr st' \<Longrightarrow> well_formed st'"
  by (cases operation)
     (auto intro: well_formed_Shape_ctor well_formed_Shape_copy_ctor well_formed_Shape_copy_assign
        well_formed_Shape_move_ctor well_formed_Shape_move_assign well_formed_Shape_dtor
        well_formed_draw)

lemma reachable_well_formed: "reachable fmt st \<Longrightarrow> well_formed st"
  by (induction rule: reachable.induct) (auto intro: well_formed_initial well_formed_exec)

section \<open>What the operations do to the held values\<close>

lemma held_eq:
  "held st r = (case pimpl_of st r of None \<Rightarrow> None | Some a \<Rightarrow> deref (heap st) a)"
  by (simp add: held_def pimpl_of_def split: option.splits)

lemma held_pimpl_of:
  "held st r = Some m \<Longrightarrow> \<exists>a. pimpl_of st r = Some a \<and> deref (heap st) a = Some m"
  by (simp add: held_eq split: option.splits)

lemma held_well_formed:
  "well_formed st \<Longrightarrow> pimpl_of st r = Some a \<Longrightarrow> \<exists>m. held st r = Some m"
  by (simp add: held_eq well_formed_valid)

lemma held_cout [simp]: "held (st\<lparr>cout := out\<rparr>) r = held st r"
  by (simp add: held_def split: option.splits)

lemma pimpl_of_cout [simp]: "pimpl_of (st\<lparr>cout := out\<rparr>) r = pimpl_of st r"
  by (simp add: pimpl_of_def)

lemma Shape_copy_ctor_held:
  "held st s = Some m \<Longrightarrow>
   Shape_copy_ctor this s st =
     Inr (st\<lparr>shapes := (shapes st)(this \<mapsto> \<lparr>pimpl = Some (length (heap st))\<rparr>),
             heap := heap st @ [Some m],
             cout := (cout st @ ''copy ctor'') @ endl\<rparr>)"
  by (simp add: Shape_copy_ctor_def pimpl_arrow_held)

lemma Shape_copy_assign_held:
  assumes wf: "well_formed st" and m: "held st s = Some m" and dst: "shapes st this = Some dst"
  shows "Shape_copy_assign this s st =
     Inr (st\<lparr>shapes := (shapes st)(this \<mapsto> \<lparr>pimpl = Some (length (heap st))\<rparr>),
             heap := (case pimpl dst of None \<Rightarrow> heap st @ [Some m]
                      | Some a \<Rightarrow> (heap st @ [Some m])[a := None]),
             cout := (cout st @ ''copy assign'') @ endl\<rparr>)"
proof (cases "pimpl dst")
  case None
  then show ?thesis
    by (simp add: Shape_copy_assign_def pimpl_arrow_held [OF m] dst delete_holder_def)
next
  case (Some a)
  then have "pimpl_of st this = Some a" by (simp add: pimpl_of_def dst)
  then have "a < length (heap st)" "\<exists>x. deref (heap st) a = Some x"
    using well_formed_less [OF wf] well_formed_valid [OF wf] by blast+
  then show ?thesis
    by (auto simp add: Shape_copy_assign_def pimpl_arrow_held [OF m] dst delete_holder_def
        Some deref_append)
qed

lemma held_after_alloc:
  assumes wf: "well_formed st"
    and p: "\<And>r. pimpl_of st' r = (if r = this then Some (length (heap st)) else pimpl_of st r)"
    and h: "heap st' = (case old of None \<Rightarrow> heap st @ [Some m]
                        | Some a \<Rightarrow> (heap st @ [Some m])[a := None])"
    and old: "old = None \<or> old = pimpl_of st this"
  shows "held st' r = (if r = this then Some m else held st r)"
proof (cases "r = this")
  case True
  have "old = Some b \<Longrightarrow> b < length (heap st)" for b
    using old well_formed_less [OF wf, of this b] by auto
  then show ?thesis
    using True by (auto simp add: held_eq p h deref_update deref_append split: option.splits)
next
  case False
  show ?thesis
  proof (cases "pimpl_of st r")
    case None
    then show ?thesis using False by (simp add: held_eq p)
  next
    case (Some a)
    have "old \<noteq> Some a"
      using old well_formed_unique [OF wf Some, of this] False by auto
    moreover have "a < length (heap st)"
      by (rule well_formed_less [OF wf Some])
    ultimately show ?thesis
      using False Some by (auto simp add: held_eq p h deref_update deref_append split: option.splits)
  qed
qed

lemma held_Shape_copy_ctor:
  assumes wf: "well_formed st" and m: "held st s = Some m"
    and st': "Shape_copy_ctor this s st = Inr st'"
  shows "held st' r = (if r = this then Some m else held st r)"
proof -
  have eq: "st' = st\<lparr>shapes := (shapes st)(this \<mapsto> \<lparr>pimpl = Some (length (heap st))\<rparr>),
             heap := heap st @ [Some m],
             cout := (cout st @ ''copy ctor'') @ endl\<rparr>"
    using st' by (simp add: Shape_copy_ctor_held [OF m])
  show ?thesis
    by (rule held_after_alloc [OF wf, where old = None]) (simp_all add: eq pimpl_of_def)
qed

lemma held_Shape_copy_assign:
  assumes wf: "well_formed st" and m: "held st s = Some m"
    and st': "Shape_copy_assign this s st = Inr st'"
  shows "held st' r = (if r = this then Some m else held st r)"
proof -
  from st' obtain m' dst where m': "held st s = Some m'" and dst: "shapes st this = Some dst"
    and eq: "st' = st\<lparr>shapes := (shapes st)(this \<mapsto> \<lparr>pimpl = Some (length (heap st))\<rparr>),
                   heap := (case pimpl dst of None \<Rightarrow> heap st @ [Some m']
                            | Some a \<Rightarrow> (heap st @ [Some m'])[a := None]),
                   cout := (cout st @ ''copy assign'') @ endl\<rparr>"
    by (rule Shape_copy_assign_Inr)
  from m m' have [simp]: "m' = m" by simp
  show ?thesis
    by (rule held_after_alloc [OF wf, where old = "pimpl dst"])
       (simp_all add: eq pimpl_of_def dst split: option.splits)
qed

lemma Shape_move_ctor_alive:
  "shapes st s = Some src \<Longrightarrow>
   Shape_move_ctor this s st =
     Inr (st\<lparr>shapes := ((shapes st)(s \<mapsto> \<lparr>pimpl = None\<rparr>))(this \<mapsto> \<lparr>pimpl = pimpl src\<rparr>)\<rparr>)"
  by (simp add: Shape_move_ctor_def)

lemma Shape_move_assign_alive:
  assumes wf: "well_formed st" and src: "shapes st s = Some src" and dst: "shapes st this = Some dst"
  shows "Shape_move_assign this s st =
     Inr (st\<lparr>shapes := ((shapes st)(s \<mapsto> \<lparr>pimpl = None\<rparr>))(this \<mapsto> \<lparr>pimpl = pimpl src\<rparr>),
             heap := (if this = s then heap st
                      else case pimpl dst of None \<Rightarrow> heap st
                           | Some a \<Rightarrow> (heap st)[a := None])\<rparr>)"
proof (cases "this = s")
  case True
  then show ?thesis
    by (simp add: Shape_move_assign_def src delete_holder_def)
next
  case False
  show ?thesis
  proof (cases "pimpl dst")
    case None
    then show ?thesis using False
      by (simp add: Shape_move_assign_def src dst delete_holder_def)
  next
    case (Some a)
    then have "pimpl_of st this = Some a" by (simp add: pimpl_of_def dst)
    then have "\<exists>x. deref (heap st) a = Some x"
      using well_formed_valid [OF wf] by blast
    then show ?thesis using False Some
      by (auto simp add: Shape_move_assign_def src dst delete_holder_def)
  qed
qed

lemma held_after_move:
  assumes wf: "well_formed st" and ne: "this \<noteq> s"
    and p: "\<And>r. pimpl_of st' r = (if r = this then pimpl_of st s else if r = s then None else pimpl_of st r)"
    and h: "heap st' = (case old of None \<Rightarrow> heap st | Some a \<Rightarrow> (heap st)[a := None])"
    and old: "old = None \<or> old = pimpl_of st this"
  shows "held st' r = (if r = this then held st s else if r = s then None else held st r)"
proof -
  have frame: "deref (heap st') a = deref (heap st) a" if "pimpl_of st x = Some a" "x \<noteq> this" for x a
  proof -
    have "old \<noteq> Some a"
      using old well_formed_unique [OF wf that(1), of this] that(2) by auto
    then show ?thesis by (auto simp add: h deref_update split: option.splits)
  qed
  show ?thesis
    using frame [of s] frame [of r] ne
    by (auto simp add: held_eq p split: option.splits)
qed

lemma pimpl_of_write_through [simp]: "pimpl_of (write_through x v st) r = pimpl_of st r"
  by (simp add: write_through_def pimpl_of_def split: option.splits)

lemma cout_write_through [simp]: "cout (write_through x v st) = cout st"
  by (simp add: write_through_def split: option.splits)

lemma write_through_frame:
  assumes wf: "well_formed st" and x: "held st x = Some vx" and y: "held st y = Some vy"
    and ne: "x \<noteq> y"
  shows "held (write_through x v st) x = Some v \<and> held (write_through x v st) y = Some vy"
proof -
  from x obtain a where a: "pimpl_of st x = Some a" "deref (heap st) a = Some vx"
    using held_pimpl_of by blast
  from y obtain b where b: "pimpl_of st y = Some b" "deref (heap st) b = Some vy"
    using held_pimpl_of by blast
  have "a \<noteq> b"
    using well_formed_unique [OF wf a(1), of y] b(1) ne by blast
  moreover have "a < length (heap st)"
    by (rule deref_Some_less [OF a(2)])
  moreover have "heap (write_through x v st) = (heap st)[a := Some v]"
    by (simp add: write_through_def a(1))
  ultimately show ?thesis
    using a b by (simp add: held_eq deref_update)
qed

lemma held_Shape_move_ctor:
  assumes src: "shapes st s = Some src" and ne: "this \<noteq> s"
    and st': "Shape_move_ctor this s st = Inr st'"
  shows "held st' r = (if r = this then held st s else if r = s then None else held st r)"
proof -
  have eq: "st' = st\<lparr>shapes := ((shapes st)(s \<mapsto> \<lparr>pimpl = None\<rparr>))(this \<mapsto> \<lparr>pimpl = pimpl src\<rparr>)\<rparr>"
    using st' by (simp add: Shape_move_ctor_alive [OF src])
  show ?thesis
    using ne by (simp add: eq held_def src split: option.splits)
qed

lemma held_Shape_move_assign:
  assumes wf: "well_formed st" and ne: "this \<noteq> s"
    and st': "Shape_move_assign this s st = Inr st'"
  shows "held st' r = (if r = this then held st s else if r = s then None else held st r)"
proof -
  from st' obtain src dst where src: "shapes st s = Some src"
    and dst: "shapes st this = Some dst"
    and eq: "st' = st\<lparr>shapes := ((shapes st)(s \<mapsto> \<lparr>pimpl = None\<rparr>))(this \<mapsto> \<lparr>pimpl = pimpl src\<rparr>),
                   heap := (if this = s then heap st
                            else case pimpl dst of None \<Rightarrow> heap st
                                 | Some a \<Rightarrow> (heap st)[a := None])\<rparr>"
    by (rule Shape_move_assign_Inr)
  show ?thesis
    by (rule held_after_move [OF wf ne, where old = "pimpl dst"])
       (simp_all add: eq pimpl_of_def src dst ne split: option.splits)
qed

lemma draw_null:
  "shapes st w = Some sh \<Longrightarrow> pimpl sh = None \<Longrightarrow> draw fmt w st = Inl Null_Dereference"
  by (simp add: draw_def pimpl_arrow_def)

lemma held_alive: "held st r = Some m \<Longrightarrow> \<exists>sh. shapes st r = Some sh"
  by (simp add: held_def split: option.splits)

lemma draw_fault_iff:
  assumes wf: "well_formed st" and sh: "shapes st w = Some sh"
  shows "(\<exists>e. draw fmt w st = Inl e) \<longleftrightarrow> held st w = None"
    and "held st w = None \<longleftrightarrow> pimpl sh = None"
    and "draw fmt w st = Inl e \<Longrightarrow> e = Null_Dereference"
proof -
  have p: "pimpl_of st w = pimpl sh" by (simp add: pimpl_of_def sh)
  show 2: "held st w = None \<longleftrightarrow> pimpl sh = None"
  proof (cases "pimpl sh")
    case None
    then show ?thesis by (simp add: held_def sh)
  next
    case (Some a)
    with held_well_formed [OF wf, of w a] p show ?thesis by auto
  qed
  show "(\<exists>e. draw fmt w st = Inl e) \<longleftrightarrow> held st w = None"
  proof (cases "held st w")
    case None
    with 2 have "pimpl sh = None" by simp
    from draw_null [OF sh this, of fmt] None show ?thesis by simp
  next
    case (Some m)
    from draw_held [OF Some, of fmt] Some show ?thesis by simp
  qed
  show "e = Null_Dereference" if "draw fmt w st = Inl e"
  proof (cases "held st w")
    case None
    with 2 have "pimpl sh = None" by simp
    from draw_null [OF sh this, of fmt] that show ?thesis by simp
  next
    case (Some m)
    from draw_held [OF Some, of fmt] that show ?thesis by simp
  qed
qed

lemma cout_Shape_ctor [simp]: "cout (Shape_ctor ShapeModel_T this x st) = cout st"
  by (simp add: Shape_ctor_def make_unique_def)

lemma held_Shape_ctor_other:
  assumes "r \<noteq> this" and "held st r = Some m"
  shows "held (Shape_ctor ShapeModel_T this x st) r = Some m"
proof -
  from held_pimpl_of [OF assms(2)] obtain a where a: "pimpl_of st r = Some a"
    and d: "deref (heap st) a = Some m" by blast
  have "a < length (heap st)" by (rule deref_Some_less [OF d])
  then have "deref (heap st @ [Some (ShapeModel_T x)]) a = Some m"
    using d by (simp add: deref_append)
  then show ?thesis
    using assms(1) a by (simp add: held_eq pimpl_of_Shape_ctor heap_Shape_ctor)
qed

lemma drawShape_distinct:
  "drawShape_Square fmt q out \<noteq> drawShape_Circle fmt c out"
  "drawShape_Triangle t out \<noteq> drawShape_Circle fmt c out"
  "drawShape_Triangle t out \<noteq> drawShape_Square fmt q out"
  by (simp_all add: drawShape_Circle_def drawShape_Square_def drawShape_Triangle_def)

section \<open>Operations leave the other wrappers alone\<close>

lemma held_Shape_ctor:
  assumes wf: "well_formed st"
  shows "held (Shape_ctor ShapeModel_T this x st) r =
           (if r = this then Some (ShapeModel_T x) else held st r)"
  by (rule held_after_alloc [OF wf, where old = None])
     (simp_all add: pimpl_of_Shape_ctor heap_Shape_ctor)

lemma held_Shape_dtor:
  assumes wf: "well_formed st" and st': "Shape_dtor this st = Inr st'"
  shows "held st' r = (if r = this then None else held st r)"
proof -
  from st' obtain sh where sh: "shapes st this = Some sh"
    and eq: "st' = st\<lparr>shapes := (shapes st)(this := None),
                   heap := (case pimpl sh of None \<Rightarrow> heap st | Some a \<Rightarrow> (heap st)[a := None])\<rparr>"
    by (rule Shape_dtor_Inr)
  have p: "pimpl_of st' x = (if x = this then None else pimpl_of st x)" for x
    by (simp add: eq pimpl_of_def)
  have h: "heap st' = (case pimpl_of st this of None \<Rightarrow> heap st | Some a \<Rightarrow> (heap st)[a := None])"
    by (simp add: eq pimpl_of_def sh)
  show ?thesis
  proof (cases "r = this")
    case True
    then show ?thesis by (simp add: held_eq p)
  next
    case False
    show ?thesis
    proof (cases "pimpl_of st r")
      case None
      then show ?thesis using False by (simp add: held_eq p)
    next
      case (Some b)
      have "pimpl_of st this \<noteq> Some b"
        using well_formed_unique [OF wf Some, of this] False by blast
      then have "deref (heap st') b = deref (heap st) b"
        by (auto simp add: h deref_update split: option.splits)
      then show ?thesis using False Some by (simp add: held_eq p)
    qed
  qed
qed

lemma held_Shape_move_assign_self:
  assumes "Shape_move_assign s s st = Inr st'"
  shows "held st' r = held st r"
proof -
  from assms obtain src dst where src: "shapes st s = Some src"
    and dst: "shapes st s = Some dst"
    and eq: "st' = st\<lparr>shapes := ((shapes st)(s \<mapsto> \<lparr>pimpl = None\<rparr>))(s \<mapsto> \<lparr>pimpl = pimpl src\<rparr>),
                   heap := (if s = s then heap st
                            else case pimpl dst of None \<Rightarrow> heap st
                                 | Some a \<Rightarrow> (heap st)[a := None])\<rparr>"
    by (rule Shape_move_assign_Inr)
  have "pimpl_of st' x = pimpl_of st x" for x
    by (simp add: eq pimpl_of_def src)
  moreover have "heap st' = heap st" by (simp add: eq)
  ultimately show ?thesis by (simp add: held_eq split: option.splits)
qed

lemma held_Shape_move_ctor_frame:
  assumes st': "Shape_move_ctor this s st = Inr st'" and "r \<noteq> this" and "r \<noteq> s"
  shows "held st' r = held st r"
  using assms by (auto simp add: Shape_move_ctor_def held_def split: option.splits)

lemma held_exec_frame:
  assumes wf: "well_formed st" and st': "exec fmt operation st = Inr st'"
    and r: "r \<notin> set (writes operation)"
  shows "held st' r = held st r"
proof (cases operation)
  case (Wrap_Circle this x)
  with st' r show ?thesis using held_Shape_ctor [OF wf, of ShapeModel_Circle this x r] by auto
next
  case (Wrap_Square this x)
  with st' r show ?thesis using held_Shape_ctor [OF wf, of ShapeModel_Square this x r] by auto
next
  case (Wrap_Triangle this x)
  with st' r show ?thesis using held_Shape_ctor [OF wf, of ShapeModel_Triangle this x r] by auto
next
  case (Copy_Construct this s)
  with st' have c: "Shape_copy_ctor this s st = Inr st'" by simp
  then obtain m where m: "held st s = Some m" by (rule Shape_copy_ctor_Inr)
  from held_Shape_copy_ctor [OF wf m c, of r] r Copy_Construct show ?thesis by simp
next
  case (Copy_Assign this s)
  with st' have c: "Shape_copy_assign this s st = Inr st'" by simp
  then obtain m where m: "held st s = Some m" by (rule Shape_copy_assign_Inr)
  from held_Shape_copy_assign [OF wf m c, of r] r Copy_Assign show ?thesis by simp
next
  case (Move_Construct this s)
  with st' have c: "Shape_move_ctor this s st = Inr st'" by simp
  from r Move_Construct have "r \<noteq> this" "r \<noteq> s" by simp_all
  then show ?thesis by (rule held_Shape_move_ctor_frame [OF c])
next
  case (Move_Assign this s)
  with st' have c: "Shape_move_assign this s st = Inr st'" by simp
  from r Move_Assign have ne: "r \<noteq> this" "r \<noteq> s" by simp_all
  show ?thesis
  proof (cases "this = s")
    case True
    with c show ?thesis by (simp add: held_Shape_move_assign_self)
  next
    case False
    from held_Shape_move_assign [OF wf False c, of r] ne show ?thesis by simp
  qed
next
  case (Destroy this)
  with st' have c: "Shape_dtor this st = Inr st'" by simp
  from held_Shape_dtor [OF wf c, of r] r Destroy show ?thesis by simp
next
  case (Draw shape)
  with st' show ?thesis by (auto simp add: draw_def andThen_def split: sum.splits)
qed

lemma run_frame:
  assumes "reachable fmt st" and "run fmt ops st = Inr st'"
    and "\<forall>operation \<in> set ops. r \<notin> set (writes operation)"
  shows "reachable fmt st' \<and> held st' r = held st r"
  using assms
proof (induction ops arbitrary: st)
  case Nil
  then show ?case by simp
next
  case (Cons operation ops)
  from Cons.prems(2) obtain st1 where 1: "exec fmt operation st = Inr st1"
    and 2: "run fmt ops st1 = Inr st'"
    by (cases "exec fmt operation st") simp_all
  have r1: "reachable fmt st1" by (rule reachable.step [OF Cons.prems(1) 1])
  have "held st1 r = held st r"
    using Cons.prems(3)
    by (intro held_exec_frame [OF reachable_well_formed [OF Cons.prems(1)] 1]) simp
  moreover have "reachable fmt st' \<and> held st' r = held st1 r"
    using Cons.prems(3) by (intro Cons.IH [OF r1 2]) simp
  ultimately show ?case by simp
qed

section \<open>The example state\<close>

lemma two_wrappers_well_formed: "well_formed (two_wrappers d)"
  by (intro well_formed_Shape_ctor well_formed_initial)

lemma two_wrappers_shapes:
  "shapes (two_wrappers d) 0 = Some \<lparr>pimpl = Some 0\<rparr>"
  "shapes (two_wrappers d) 1 = Some \<lparr>pimpl = Some 1\<rparr>"
  by (simp_all add: Shape_ctor_def make_unique_def initial_def)

lemma two_wrappers_held:
  "held (two_wrappers d) 0 = Some (ShapeModel_Square (Square d))"
  "held (two_wrappers d) 1 = Some (ShapeModel_Circle (Circle d))"
  by (simp_all add: held_def Shape_ctor_def make_unique_def initial_def deref_def)

lemma two_wrappers_cout: "cout (two_wrappers d) = []"
  by (simp add: Shape_ctor_def make_unique_def initial_def)

section \<open>Wrapping and drawing\<close>

text \<open>
  C1. For each of the three types with a drawShape overload, constructing a Shape from
  a value and drawing that Shape writes to standard output exactly what drawShape
  writes for the value itself; nothing else of the state changes by the draw.
\<close>

theorem C1_wrap_then_draw:
  "draw fmt this (Shape_ctor ShapeModel_Circle this c st) =
     Inr ((Shape_ctor ShapeModel_Circle this c st)\<lparr>cout := drawShape_Circle fmt c (cout st)\<rparr>)
   \<and> draw fmt this (Shape_ctor ShapeModel_Square this q st) =
     Inr ((Shape_ctor ShapeModel_Square this q st)\<lparr>cout := drawShape_Square fmt q (cout st)\<rparr>)
   \<and> draw fmt this (Shape_ctor ShapeModel_Triangle this t st) =
     Inr ((Shape_ctor ShapeModel_Triangle this t st)\<lparr>cout := drawShape_Triangle t (cout st)\<rparr>)"
proof -
  have out: "cout (Shape_ctor ShapeModel_T this x st) = cout st"
    for ShapeModel_T :: "'t \<Rightarrow> 'a ShapeConcept" and x
    by (simp add: Shape_ctor_def make_unique_def)
  show ?thesis
    by (simp add: draw_held [OF held_Shape_ctor_this] out)
qed

section \<open>The binding follows the value\<close>

text \<open>
  C2. In every state a client can reach, a Shape whose pointer is not null owns a
  holder, and drawing it calls the drawShape overload of the type that holder was made
  for, on the value in that holder; a draw changes no held value. Copy assignment of a
  wrapper holding \<open>m\<close> over any live wrapper succeeds and leaves the destination
  holding \<open>m\<close>, type and value together, so that drawing the destination writes what
  \<open>m\<close>'s own overload writes for \<open>m\<close>'s value; the source and every other wrapper
  hold what they held.

  The binding lasts. Every operation leaves the holder, type and value, of every
  wrapper it does not construct, assign to, move from or destroy as it was. The
  wrapper an operation does change holds afterwards: the value it was constructed
  from, with the holder type of that value; what the source held, after a copy or a
  move; nothing, when it was moved from or destroyed. Hence after any client program
  that runs without fault and neither reconstructs, assigns to, moves from nor destroys
  a wrapper, that wrapper holds what it held before, and drawing it writes what the
  overload chosen when it was wrapped writes for the value it was wrapped with.
\<close>

theorem C2_binding_follows_value:
  assumes "reachable fmt st"
  shows "(\<forall>r a. pimpl_of st r = Some a \<longrightarrow> (\<exists>m. held st r = Some m))
    \<and> (\<forall>r c. held st r = Some (ShapeModel_Circle c) \<longrightarrow>
          draw fmt r st = Inr (st\<lparr>cout := drawShape_Circle fmt c (cout st)\<rparr>))
    \<and> (\<forall>r q. held st r = Some (ShapeModel_Square q) \<longrightarrow>
          draw fmt r st = Inr (st\<lparr>cout := drawShape_Square fmt q (cout st)\<rparr>))
    \<and> (\<forall>r t. held st r = Some (ShapeModel_Triangle t) \<longrightarrow>
          draw fmt r st = Inr (st\<lparr>cout := drawShape_Triangle t (cout st)\<rparr>))
    \<and> (\<forall>r r' st'. draw fmt r st = Inr st' \<longrightarrow> held st' r' = held st r')
    \<and> (\<forall>this s m. held st s = Some m \<and> shapes st this \<noteq> None \<longrightarrow>
          (\<exists>st'. Shape_copy_assign this s st = Inr st' \<and> reachable fmt st'
             \<and> held st' this = Some m \<and> held st' s = Some m
             \<and> draw fmt this st' = Inr (st'\<lparr>cout := ShapeModel_draw fmt m (cout st')\<rparr>)
             \<and> (\<forall>r. r \<noteq> this \<longrightarrow> held st' r = held st r)))
    \<and> (\<forall>operation st' r. exec fmt operation st = Inr st' \<and> r \<notin> set (writes operation) \<longrightarrow>
          held st' r = held st r)
    \<and> (\<forall>this c q t.
          held (Shape_ctor ShapeModel_Circle this c st) this = Some (ShapeModel_Circle c)
        \<and> held (Shape_ctor ShapeModel_Square this q st) this = Some (ShapeModel_Square q)
        \<and> held (Shape_ctor ShapeModel_Triangle this t st) this = Some (ShapeModel_Triangle t))
    \<and> (\<forall>this s st'.
          Shape_copy_ctor this s st = Inr st' \<or> Shape_copy_assign this s st = Inr st' \<longrightarrow>
          held st' this = held st s \<and> held st s \<noteq> None)
    \<and> (\<forall>this s st'.
          this \<noteq> s \<and> (Shape_move_ctor this s st = Inr st' \<or> Shape_move_assign this s st = Inr st')
          \<longrightarrow> held st' this = held st s \<and> held st' s = None)
    \<and> (\<forall>s st'. Shape_move_assign s s st = Inr st' \<longrightarrow> held st' s = held st s)
    \<and> (\<forall>this st'. Shape_dtor this st = Inr st' \<longrightarrow> held st' this = None)
    \<and> (\<forall>ops st' r m.
          run fmt ops st = Inr st' \<and> held st r = Some m
          \<and> (\<forall>operation \<in> set ops. r \<notin> set (writes operation)) \<longrightarrow>
          reachable fmt st' \<and> held st' r = Some m
          \<and> draw fmt r st' = Inr (st'\<lparr>cout := ShapeModel_draw fmt m (cout st')\<rparr>))
    \<and> (\<forall>this c ops st'.
          run fmt ops (Shape_ctor ShapeModel_Circle this c st) = Inr st'
          \<and> (\<forall>operation \<in> set ops. this \<notin> set (writes operation)) \<longrightarrow>
          draw fmt this st' = Inr (st'\<lparr>cout := drawShape_Circle fmt c (cout st')\<rparr>))
    \<and> (\<forall>this q ops st'.
          run fmt ops (Shape_ctor ShapeModel_Square this q st) = Inr st'
          \<and> (\<forall>operation \<in> set ops. this \<notin> set (writes operation)) \<longrightarrow>
          draw fmt this st' = Inr (st'\<lparr>cout := drawShape_Square fmt q (cout st')\<rparr>))
    \<and> (\<forall>this t ops st'.
          run fmt ops (Shape_ctor ShapeModel_Triangle this t st) = Inr st'
          \<and> (\<forall>operation \<in> set ops. this \<notin> set (writes operation)) \<longrightarrow>
          draw fmt this st' = Inr (st'\<lparr>cout := drawShape_Triangle t (cout st')\<rparr>))"
proof -
  have wf: "well_formed st"
    by (rule reachable_well_formed [OF assms])
  have 1: "\<forall>r a. pimpl_of st r = Some a \<longrightarrow> (\<exists>m. held st r = Some m)"
    using held_well_formed [OF wf] by blast
  have 2: "\<forall>r c. held st r = Some (ShapeModel_Circle c) \<longrightarrow>
          draw fmt r st = Inr (st\<lparr>cout := drawShape_Circle fmt c (cout st)\<rparr>)"
    by (simp add: draw_held)
  have 3: "\<forall>r q. held st r = Some (ShapeModel_Square q) \<longrightarrow>
          draw fmt r st = Inr (st\<lparr>cout := drawShape_Square fmt q (cout st)\<rparr>)"
    by (simp add: draw_held)
  have 4: "\<forall>r t. held st r = Some (ShapeModel_Triangle t) \<longrightarrow>
          draw fmt r st = Inr (st\<lparr>cout := drawShape_Triangle t (cout st)\<rparr>)"
    by (simp add: draw_held)
  have 5: "\<forall>r r' st'. draw fmt r st = Inr st' \<longrightarrow> held st' r' = held st r'"
    by (auto simp add: draw_def andThen_def split: sum.splits)
  have assign: "\<exists>st'. Shape_copy_assign this s st = Inr st' \<and> reachable fmt st'
             \<and> held st' this = Some m \<and> held st' s = Some m
             \<and> draw fmt this st' = Inr (st'\<lparr>cout := ShapeModel_draw fmt m (cout st')\<rparr>)
             \<and> (\<forall>r. r \<noteq> this \<longrightarrow> held st' r = held st r)"
    if m: "held st s = Some m" and alive: "shapes st this \<noteq> None" for this s m
  proof -
    from alive obtain dst where dst: "shapes st this = Some dst" by blast
    from Shape_copy_assign_held [OF wf m dst]
    obtain st' where st': "Shape_copy_assign this s st = Inr st'" by blast
    have "exec fmt (Copy_Assign this s) st = Inr st'" by (simp add: st')
    then have "reachable fmt st'" by (rule reachable.step [OF assms])
    moreover have h: "held st' r = (if r = this then Some m else held st r)" for r
      by (rule held_Shape_copy_assign [OF wf m st'])
    moreover have "held st' this = Some m" by (simp add: h)
    moreover from this have "draw fmt this st' = Inr (st'\<lparr>cout := ShapeModel_draw fmt m (cout st')\<rparr>)"
      by (rule draw_held)
    ultimately show ?thesis using st' m by simp
  qed
  then have 6: "\<forall>this s m. held st s = Some m \<and> shapes st this \<noteq> None \<longrightarrow>
          (\<exists>st'. Shape_copy_assign this s st = Inr st' \<and> reachable fmt st'
             \<and> held st' this = Some m \<and> held st' s = Some m
             \<and> draw fmt this st' = Inr (st'\<lparr>cout := ShapeModel_draw fmt m (cout st')\<rparr>)
             \<and> (\<forall>r. r \<noteq> this \<longrightarrow> held st' r = held st r))"
    by blast
  have 7: "\<forall>operation st' r. exec fmt operation st = Inr st' \<and> r \<notin> set (writes operation) \<longrightarrow>
          held st' r = held st r"
    using held_exec_frame [OF wf] by blast
  have 8: "\<forall>this c q t.
          held (Shape_ctor ShapeModel_Circle this c st) this = Some (ShapeModel_Circle c)
        \<and> held (Shape_ctor ShapeModel_Square this q st) this = Some (ShapeModel_Square q)
        \<and> held (Shape_ctor ShapeModel_Triangle this t st) this = Some (ShapeModel_Triangle t)"
    by simp
  have 9: "\<forall>this s st'.
          Shape_copy_ctor this s st = Inr st' \<or> Shape_copy_assign this s st = Inr st' \<longrightarrow>
          held st' this = held st s \<and> held st s \<noteq> None"
  proof (intro allI impI)
    fix this s st'
    assume "Shape_copy_ctor this s st = Inr st' \<or> Shape_copy_assign this s st = Inr st'"
    then show "held st' this = held st s \<and> held st s \<noteq> None"
    proof
      assume c: "Shape_copy_ctor this s st = Inr st'"
      then obtain m where m: "held st s = Some m" by (rule Shape_copy_ctor_Inr)
      from held_Shape_copy_ctor [OF wf m c, of this] m show ?thesis by simp
    next
      assume c: "Shape_copy_assign this s st = Inr st'"
      then obtain m where m: "held st s = Some m" by (rule Shape_copy_assign_Inr)
      from held_Shape_copy_assign [OF wf m c, of this] m show ?thesis by simp
    qed
  qed
  have 10: "\<forall>this s st'.
          this \<noteq> s \<and> (Shape_move_ctor this s st = Inr st' \<or> Shape_move_assign this s st = Inr st')
          \<longrightarrow> held st' this = held st s \<and> held st' s = None"
  proof (intro allI impI, elim conjE)
    fix this s :: ref and st' :: "'a state"
    assume ne: "this \<noteq> s"
    assume "Shape_move_ctor this s st = Inr st' \<or> Shape_move_assign this s st = Inr st'"
    then show "held st' this = held st s \<and> held st' s = None"
    proof
      assume c: "Shape_move_ctor this s st = Inr st'"
      then obtain src where src: "shapes st s = Some src"
        by (auto simp add: Shape_move_ctor_def split: option.splits)
      from held_Shape_move_ctor [OF src ne c, of this] held_Shape_move_ctor [OF src ne c, of s] ne
      show ?thesis by simp
    next
      assume c: "Shape_move_assign this s st = Inr st'"
      from held_Shape_move_assign [OF wf ne c, of this] held_Shape_move_assign [OF wf ne c, of s] ne
      show ?thesis by simp
    qed
  qed
  have 11: "\<forall>s st'. Shape_move_assign s s st = Inr st' \<longrightarrow> held st' s = held st s"
    using held_Shape_move_assign_self by blast
  have 12: "\<forall>this st'. Shape_dtor this st = Inr st' \<longrightarrow> held st' this = None"
    using held_Shape_dtor [OF wf] by simp
  have runs: "reachable fmt st' \<and> held st' r = Some m
          \<and> draw fmt r st' = Inr (st'\<lparr>cout := ShapeModel_draw fmt m (cout st')\<rparr>)"
    if reach: "reachable fmt st0" and run: "run fmt ops st0 = Inr st'" and m: "held st0 r = Some m"
      and untouched: "\<forall>operation \<in> set ops. r \<notin> set (writes operation)"
    for st0 ops st' r m
  proof -
    from run_frame [OF reach run untouched] m
    have a: "reachable fmt st'" and b: "held st' r = Some m" by simp_all
    from a b draw_held [OF b, of fmt] show ?thesis by (intro conjI)
  qed
  have 13: "\<forall>ops st' r m.
          run fmt ops st = Inr st' \<and> held st r = Some m
          \<and> (\<forall>operation \<in> set ops. r \<notin> set (writes operation)) \<longrightarrow>
          reachable fmt st' \<and> held st' r = Some m
          \<and> draw fmt r st' = Inr (st'\<lparr>cout := ShapeModel_draw fmt m (cout st')\<rparr>)"
    using runs [OF assms] by blast
  have wrapped: "draw fmt this st' = Inr (st'\<lparr>cout := ShapeModel_draw fmt (ShapeModel_T x) (cout st')\<rparr>)"
    if op: "exec fmt operation st = Inr (Shape_ctor ShapeModel_T this x st)"
      and run: "run fmt ops (Shape_ctor ShapeModel_T this x st) = Inr st'"
      and untouched: "\<forall>operation \<in> set ops. this \<notin> set (writes operation)"
    for operation and ShapeModel_T :: "'t \<Rightarrow> 'a ShapeConcept" and this x ops st'
  proof -
    have "reachable fmt (Shape_ctor ShapeModel_T this x st)"
      by (rule reachable.step [OF assms op])
    from runs [OF this run held_Shape_ctor_this untouched] show ?thesis by simp
  qed
  have 14: "\<forall>this c ops st'.
          run fmt ops (Shape_ctor ShapeModel_Circle this c st) = Inr st'
          \<and> (\<forall>operation \<in> set ops. this \<notin> set (writes operation)) \<longrightarrow>
          draw fmt this st' = Inr (st'\<lparr>cout := drawShape_Circle fmt c (cout st')\<rparr>)"
  proof (intro allI impI, elim conjE)
    fix this :: ref and c :: "'a Circle" and ops and st' :: "'a state"
    assume run: "run fmt ops (Shape_ctor ShapeModel_Circle this c st) = Inr st'"
      and untouched: "\<forall>operation \<in> set ops. this \<notin> set (writes operation)"
    have "exec fmt (Wrap_Circle this c) st = Inr (Shape_ctor ShapeModel_Circle this c st)" by simp
    from wrapped [OF this run untouched]
    show "draw fmt this st' = Inr (st'\<lparr>cout := drawShape_Circle fmt c (cout st')\<rparr>)" by simp
  qed
  have 15: "\<forall>this q ops st'.
          run fmt ops (Shape_ctor ShapeModel_Square this q st) = Inr st'
          \<and> (\<forall>operation \<in> set ops. this \<notin> set (writes operation)) \<longrightarrow>
          draw fmt this st' = Inr (st'\<lparr>cout := drawShape_Square fmt q (cout st')\<rparr>)"
  proof (intro allI impI, elim conjE)
    fix this :: ref and q :: "'a Square" and ops and st' :: "'a state"
    assume run: "run fmt ops (Shape_ctor ShapeModel_Square this q st) = Inr st'"
      and untouched: "\<forall>operation \<in> set ops. this \<notin> set (writes operation)"
    have "exec fmt (Wrap_Square this q) st = Inr (Shape_ctor ShapeModel_Square this q st)" by simp
    from wrapped [OF this run untouched]
    show "draw fmt this st' = Inr (st'\<lparr>cout := drawShape_Square fmt q (cout st')\<rparr>)" by simp
  qed
  have 16: "\<forall>this t ops st'.
          run fmt ops (Shape_ctor ShapeModel_Triangle this t st) = Inr st'
          \<and> (\<forall>operation \<in> set ops. this \<notin> set (writes operation)) \<longrightarrow>
          draw fmt this st' = Inr (st'\<lparr>cout := drawShape_Triangle t (cout st')\<rparr>)"
  proof (intro allI impI, elim conjE)
    fix this :: ref and t :: "Triangle" and ops and st' :: "'a state"
    assume run: "run fmt ops (Shape_ctor ShapeModel_Triangle this t st) = Inr st'"
      and untouched: "\<forall>operation \<in> set ops. this \<notin> set (writes operation)"
    have "exec fmt (Wrap_Triangle this t) st = Inr (Shape_ctor ShapeModel_Triangle this t st)" by simp
    from wrapped [OF this run untouched]
    show "draw fmt this st' = Inr (st'\<lparr>cout := drawShape_Triangle t (cout st')\<rparr>)" by simp
  qed
  from 1 2 3 4 5 6 7 8 9 10 11 12 13 14 15 16 show ?thesis by (intro conjI)
qed

theorem C2_binding_follows_value_witness:
  "let st0 = Shape_ctor ShapeModel_Square 1 (Square ''230'')
               (Shape_ctor ShapeModel_Circle 0 (Circle ''230'') initial)
   in reachable (\<lambda>d. d) st0
    \<and> held st0 0 = Some (ShapeModel_Circle (Circle ''230''))
    \<and> held st0 1 = Some (ShapeModel_Square (Square ''230''))
    \<and> shapes st0 0 \<noteq> None
    \<and> draw (\<lambda>d. d) 0 st0 = Inr (st0\<lparr>cout := ''Circle: 230'' @ endl\<rparr>)
    \<and> (\<exists>st'. Shape_copy_assign 0 1 st0 = Inr st'
          \<and> held st' 0 = Some (ShapeModel_Square (Square ''230''))
          \<and> draw (\<lambda>d. d) 0 st' = Inr (st'\<lparr>cout := (cout st' @ ''Square: 230'') @ endl\<rparr>))
    \<and> (\<forall>operation \<in> set [Copy_Construct 2 0, Move_Assign 2 1, Destroy 1,
                               Wrap_Triangle 1 Triangle :: string operation].
          0 \<notin> set (writes operation))
    \<and> (\<exists>st'. run (\<lambda>d. d)
                [Copy_Construct 2 0, Move_Assign 2 1, Destroy 1, Wrap_Triangle 1 Triangle] st0 = Inr st'
          \<and> held st' 0 = Some (ShapeModel_Circle (Circle ''230''))
          \<and> draw (\<lambda>d. d) 0 st' = Inr (st'\<lparr>cout := (cout st' @ ''Circle: 230'') @ endl\<rparr>))"
proof -
  define fmt :: "string \<Rightarrow> string" where "fmt = (\<lambda>d. d)"
  define st0 :: "string state" where
    "st0 = Shape_ctor ShapeModel_Square 1 (Square ''230'')
             (Shape_ctor ShapeModel_Circle 0 (Circle ''230'') initial)"
  define ops :: "string operation list" where
    "ops = [Copy_Construct 2 0, Move_Assign 2 1, Destroy 1, Wrap_Triangle 1 Triangle]"
  have "reachable fmt (Shape_ctor ShapeModel_Circle 0 (Circle ''230'') initial)"
    by (rule reachable.step [OF reachable.start, of _ "Wrap_Circle 0 (Circle ''230'')"]) simp
  then have r: "reachable fmt st0"
    unfolding st0_def
    by (rule reachable.step [of _ _ "Wrap_Square 1 (Square ''230'')"]) simp
  have c: "held st0 0 = Some (ShapeModel_Circle (Circle ''230''))"
    by (simp add: st0_def held_def Shape_ctor_def make_unique_def initial_def deref_def)
  have q: "held st0 1 = Some (ShapeModel_Square (Square ''230''))"
    by (simp add: st0_def held_def Shape_ctor_def make_unique_def initial_def deref_def)
  have a: "shapes st0 0 \<noteq> None"
    by (simp add: st0_def Shape_ctor_def make_unique_def initial_def)
  have o: "cout st0 = []"
    by (simp add: st0_def Shape_ctor_def make_unique_def initial_def)
  note main = C2_binding_follows_value [OF r]
  note circle = main [THEN conjunct2, THEN conjunct1, rule_format]
  note assign = main [THEN conjunct2, THEN conjunct2, THEN conjunct2, THEN conjunct2,
      THEN conjunct2, THEN conjunct1, rule_format]
  note runs = main [THEN conjunct2, THEN conjunct2, THEN conjunct2, THEN conjunct2,
      THEN conjunct2, THEN conjunct2, THEN conjunct2, THEN conjunct2, THEN conjunct2,
      THEN conjunct2, THEN conjunct2, THEN conjunct2, THEN conjunct1, rule_format]
  have d: "draw fmt 0 st0 = Inr (st0\<lparr>cout := ''Circle: 230'' @ endl\<rparr>)"
    using circle [OF c] by (simp add: o drawShape_Circle_def fmt_def)
  from assign [OF conjI [OF q a]] obtain st' where 1: "Shape_copy_assign 0 1 st0 = Inr st'"
    and 2: "held st' 0 = Some (ShapeModel_Square (Square ''230''))"
    and 3: "draw fmt 0 st' =
           Inr (st'\<lparr>cout := ShapeModel_draw fmt (ShapeModel_Square (Square ''230'')) (cout st')\<rparr>)"
    by (elim exE conjE)
  from 3 have "draw fmt 0 st' = Inr (st'\<lparr>cout := (cout st' @ ''Square: 230'') @ endl\<rparr>)"
    by (simp add: drawShape_Square_def fmt_def)
  with 1 2 have e: "\<exists>st'. Shape_copy_assign 0 1 st0 = Inr st'
          \<and> held st' 0 = Some (ShapeModel_Square (Square ''230''))
          \<and> draw fmt 0 st' = Inr (st'\<lparr>cout := (cout st' @ ''Square: 230'') @ endl\<rparr>)"
    by (intro exI conjI)
  have u: "\<forall>operation \<in> set ops. 0 \<notin> set (writes operation)"
    by (simp add: ops_def)
  have "\<exists>st1. run fmt ops st0 = Inr st1"
    by (simp add: ops_def st0_def Shape_copy_ctor_def Shape_move_assign_def Shape_dtor_def
        pimpl_arrow_def delete_holder_def Shape_ctor_def make_unique_def initial_def deref_def)
  then obtain st1 where 4: "run fmt ops st0 = Inr st1" by blast
  from runs [OF conjI [OF 4 conjI [OF c u]]]
  have 5: "held st1 0 = Some (ShapeModel_Circle (Circle ''230''))"
    and 6: "draw fmt 0 st1 =
           Inr (st1\<lparr>cout := ShapeModel_draw fmt (ShapeModel_Circle (Circle ''230'')) (cout st1)\<rparr>)"
    by simp_all
  from 6 have "draw fmt 0 st1 = Inr (st1\<lparr>cout := (cout st1 @ ''Circle: 230'') @ endl\<rparr>)"
    by (simp add: drawShape_Circle_def fmt_def)
  with 4 5 have f: "\<exists>st'. run fmt ops st0 = Inr st'
          \<and> held st' 0 = Some (ShapeModel_Circle (Circle ''230''))
          \<and> draw fmt 0 st' = Inr (st'\<lparr>cout := (cout st' @ ''Circle: 230'') @ endl\<rparr>)"
    by (intro exI conjI)
  from r c q a d e u f show ?thesis
    unfolding Let_def st0_def fmt_def ops_def by (intro conjI)
qed

section \<open>Copies are independent\<close>

text \<open>
  C3. Copy construction, and copy assignment to a live wrapper, of \<open>w2\<close> from a
  different wrapper \<open>w1\<close> holding \<open>v\<close> succeed and leave both holding \<open>v\<close> in two
  different holders. Writing any other content through the pointer of one of them
  changes what that one holds and leaves the output of drawing the other as it was.
\<close>

theorem C3_copies_independent:
  assumes "well_formed st" and "held st w1 = Some v" and "w2 \<noteq> w1"
    and "copy = Shape_copy_ctor \<or> copy = Shape_copy_assign \<and> shapes st w2 \<noteq> None"
  shows "\<exists>st'. copy w2 w1 st = Inr st'
      \<and> held st' w1 = Some v \<and> held st' w2 = Some v
      \<and> pimpl_of st' w1 \<noteq> pimpl_of st' w2
      \<and> (\<forall>v'. held (write_through w1 v' st') w1 = Some v'
             \<and> draw fmt w2 (write_through w1 v' st') =
                 Inr ((write_through w1 v' st')\<lparr>cout := ShapeModel_draw fmt v (cout st')\<rparr>))
      \<and> (\<forall>v'. held (write_through w2 v' st') w2 = Some v'
             \<and> draw fmt w1 (write_through w2 v' st') =
                 Inr ((write_through w2 v' st')\<lparr>cout := ShapeModel_draw fmt v (cout st')\<rparr>))"
proof -
  note wf = assms(1) and v = assms(2) and ne = assms(3)
  have "\<exists>st'. copy w2 w1 st = Inr st' \<and> well_formed st'
          \<and> (\<forall>r. held st' r = (if r = w2 then Some v else held st r))"
    using assms(4)
  proof
    assume c: "copy = Shape_copy_ctor"
    from Shape_copy_ctor_held [OF v]
    obtain st' where st': "Shape_copy_ctor w2 w1 st = Inr st'" by blast
    then show ?thesis
      using well_formed_Shape_copy_ctor [OF wf st'] held_Shape_copy_ctor [OF wf v st'] c
      by blast
  next
    assume c: "copy = Shape_copy_assign \<and> shapes st w2 \<noteq> None"
    then obtain dst where dst: "shapes st w2 = Some dst" by blast
    from Shape_copy_assign_held [OF wf v dst]
    obtain st' where st': "Shape_copy_assign w2 w1 st = Inr st'" by blast
    then show ?thesis
      using well_formed_Shape_copy_assign [OF wf st'] held_Shape_copy_assign [OF wf v st'] c
      by blast
  qed
  then obtain st' where st': "copy w2 w1 st = Inr st'" and wf': "well_formed st'"
    and h: "\<And>r. held st' r = (if r = w2 then Some v else held st r)"
    by blast
  have h1: "held st' w1 = Some v" using ne v by (simp add: h)
  have h2: "held st' w2 = Some v" by (simp add: h)
  have distinct: "pimpl_of st' w1 \<noteq> pimpl_of st' w2"
  proof
    assume eq: "pimpl_of st' w1 = pimpl_of st' w2"
    from held_pimpl_of [OF h1] obtain a where a: "pimpl_of st' w1 = Some a" by blast
    then have "pimpl_of st' w2 = Some a" unfolding eq .
    from well_formed_unique [OF wf' a this] ne show False by blast
  qed
  have m1: "held (write_through w1 v' st') w1 = Some v'
             \<and> draw fmt w2 (write_through w1 v' st') =
                 Inr ((write_through w1 v' st')\<lparr>cout := ShapeModel_draw fmt v (cout st')\<rparr>)" for v'
  proof -
    from write_through_frame [OF wf' h1 h2 ne [symmetric], of v']
    have a: "held (write_through w1 v' st') w1 = Some v'"
      and b: "held (write_through w1 v' st') w2 = Some v" by blast+
    from draw_held [OF b, of fmt] a show ?thesis
      unfolding cout_write_through by blast
  qed
  have m2: "held (write_through w2 v' st') w2 = Some v'
             \<and> draw fmt w1 (write_through w2 v' st') =
                 Inr ((write_through w2 v' st')\<lparr>cout := ShapeModel_draw fmt v (cout st')\<rparr>)" for v'
  proof -
    from write_through_frame [OF wf' h2 h1 ne, of v']
    have a: "held (write_through w2 v' st') w2 = Some v'"
      and b: "held (write_through w2 v' st') w1 = Some v" by blast+
    from draw_held [OF b, of fmt] a show ?thesis
      unfolding cout_write_through by blast
  qed
  from st' h1 h2 distinct m1 m2 show ?thesis by blast
qed

theorem C3_copies_independent_witness:
  "let st0 = Shape_ctor ShapeModel_Triangle 1 Triangle
               (Shape_ctor ShapeModel_Circle 0 (Circle ''230'') initial)
   in well_formed st0
    \<and> held st0 0 = Some (ShapeModel_Circle (Circle ''230''))
    \<and> shapes st0 1 \<noteq> None
    \<and> (\<exists>st'. Shape_copy_assign 1 0 st0 = Inr st'
          \<and> held st' 1 = Some (ShapeModel_Circle (Circle ''230''))
          \<and> pimpl_of st' 0 \<noteq> pimpl_of st' 1
          \<and> held (write_through 0 (ShapeModel_Circle (Circle ''1'')) st') 0 =
               Some (ShapeModel_Circle (Circle ''1''))
          \<and> draw (\<lambda>d. d) 1 (write_through 0 (ShapeModel_Circle (Circle ''1'')) st') =
               Inr ((write_through 0 (ShapeModel_Circle (Circle ''1'')) st')
                      \<lparr>cout := (cout st' @ ''Circle: 230'') @ endl\<rparr>))"
proof -
  define st0 :: "string state" where
    "st0 = Shape_ctor ShapeModel_Triangle 1 Triangle
             (Shape_ctor ShapeModel_Circle 0 (Circle ''230'') initial)"
  have wf: "well_formed st0"
    unfolding st0_def by (intro well_formed_Shape_ctor well_formed_initial)
  have c: "held st0 0 = Some (ShapeModel_Circle (Circle ''230''))"
    by (simp add: st0_def held_def Shape_ctor_def make_unique_def initial_def deref_def)
  have a: "shapes st0 1 \<noteq> None"
    by (simp add: st0_def Shape_ctor_def make_unique_def initial_def)
  have ne: "(1::nat) \<noteq> 0" by simp
  have "Shape_copy_assign = Shape_copy_ctor \<or> Shape_copy_assign = Shape_copy_assign \<and> shapes st0 1 \<noteq> None"
    using a by simp
  from C3_copies_independent [where fmt = "\<lambda>d. d", OF wf c ne this]
  obtain st' where "Shape_copy_assign 1 0 st0 = Inr st'"
    and "held st' 1 = Some (ShapeModel_Circle (Circle ''230''))"
    and "pimpl_of st' 0 \<noteq> pimpl_of st' 1"
    and "\<And>v'. held (write_through 0 v' st') 0 = Some v'
             \<and> draw (\<lambda>d. d) 1 (write_through 0 v' st') =
                 Inr ((write_through 0 v' st')
                   \<lparr>cout := ShapeModel_draw (\<lambda>d. d) (ShapeModel_Circle (Circle ''230'')) (cout st')\<rparr>)"
    by auto
  then have "\<exists>st'. Shape_copy_assign 1 0 st0 = Inr st'
          \<and> held st' 1 = Some (ShapeModel_Circle (Circle ''230''))
          \<and> pimpl_of st' 0 \<noteq> pimpl_of st' 1
          \<and> held (write_through 0 (ShapeModel_Circle (Circle ''1'')) st') 0 =
               Some (ShapeModel_Circle (Circle ''1''))
          \<and> draw (\<lambda>d. d) 1 (write_through 0 (ShapeModel_Circle (Circle ''1'')) st') =
               Inr ((write_through 0 (ShapeModel_Circle (Circle ''1'')) st')
                      \<lparr>cout := (cout st' @ ''Circle: 230'') @ endl\<rparr>)"
    by (auto simp add: drawShape_Circle_def)
  with wf c a show ?thesis
    unfolding Let_def st0_def by blast
qed

section \<open>Moving a wrapper\<close>

text \<open>
  C4. Move construction, and move assignment to a live wrapper, of \<open>w2\<close> from a
  different wrapper \<open>w1\<close> holding \<open>v\<close> succeed. Afterwards \<open>w2\<close> stores the very
  pointer \<open>w1\<close> stored, so drawing \<open>w2\<close> writes what drawing \<open>w1\<close> wrote before the
  move. No cell of the free store is allocated and every holder that exists afterwards
  existed before with the same content: nothing is duplicated. \<open>w1\<close> is alive with a
  null pointer, and drawing it dereferences the null pointer.
\<close>

theorem C4_move_transfers:
  assumes "well_formed st" and "held st w1 = Some v" and "w2 \<noteq> w1"
    and "move = Shape_move_ctor \<or> move = Shape_move_assign \<and> shapes st w2 \<noteq> None"
  shows "\<exists>st'. move w2 w1 st = Inr st'
      \<and> held st' w2 = Some v
      \<and> pimpl_of st' w2 = pimpl_of st w1
      \<and> draw fmt w1 st = Inr (st\<lparr>cout := ShapeModel_draw fmt v (cout st)\<rparr>)
      \<and> draw fmt w2 st' = Inr (st'\<lparr>cout := ShapeModel_draw fmt v (cout st)\<rparr>)
      \<and> length (heap st') = length (heap st)
      \<and> (\<forall>a m. deref (heap st') a = Some m \<longrightarrow> deref (heap st) a = Some m)
      \<and> shapes st' w1 = Some \<lparr>pimpl = None\<rparr>
      \<and> held st' w1 = None
      \<and> draw fmt w1 st' = Inl Null_Dereference"
proof -
  note wf = assms(1) and v = assms(2) and ne = assms(3)
  from held_alive [OF v] obtain src where src: "shapes st w1 = Some src" by blast
  have p1: "pimpl_of st w1 = pimpl src" by (simp add: pimpl_of_def src)
  have "\<exists>st' h. move w2 w1 st = Inr st'
          \<and> st' = st\<lparr>shapes := ((shapes st)(w1 \<mapsto> \<lparr>pimpl = None\<rparr>))(w2 \<mapsto> \<lparr>pimpl = pimpl src\<rparr>),
                      heap := h\<rparr>
          \<and> (h = heap st \<or> (\<exists>a. h = (heap st)[a := None]))
          \<and> (\<forall>r. held st' r = (if r = w2 then held st w1 else if r = w1 then None else held st r))"
    using assms(4)
  proof
    assume c: "move = Shape_move_ctor"
    let ?st' = "st\<lparr>shapes := ((shapes st)(w1 \<mapsto> \<lparr>pimpl = None\<rparr>))(w2 \<mapsto> \<lparr>pimpl = pimpl src\<rparr>)\<rparr>"
    have st': "Shape_move_ctor w2 w1 st = Inr ?st'"
      by (rule Shape_move_ctor_alive [OF src])
    have "?st' = st\<lparr>shapes := ((shapes st)(w1 \<mapsto> \<lparr>pimpl = None\<rparr>))(w2 \<mapsto> \<lparr>pimpl = pimpl src\<rparr>),
                      heap := heap st\<rparr>"
      by simp
    with st' held_Shape_move_ctor [OF src ne st'] c show ?thesis by blast
  next
    assume c: "move = Shape_move_assign \<and> shapes st w2 \<noteq> None"
    then obtain dst where dst: "shapes st w2 = Some dst" by blast
    let ?h = "case pimpl dst of None \<Rightarrow> heap st | Some a \<Rightarrow> (heap st)[a := None]"
    let ?st' = "st\<lparr>shapes := ((shapes st)(w1 \<mapsto> \<lparr>pimpl = None\<rparr>))(w2 \<mapsto> \<lparr>pimpl = pimpl src\<rparr>),
                   heap := ?h\<rparr>"
    have st': "Shape_move_assign w2 w1 st = Inr ?st'"
      using Shape_move_assign_alive [OF wf src dst] ne by simp
    have "?h = heap st \<or> (\<exists>a. ?h = (heap st)[a := None])"
      by (cases "pimpl dst") auto
    with st' held_Shape_move_assign [OF wf ne st'] c show ?thesis by blast
  qed
  then obtain st' h where st': "move w2 w1 st = Inr st'"
    and eq: "st' = st\<lparr>shapes := ((shapes st)(w1 \<mapsto> \<lparr>pimpl = None\<rparr>))(w2 \<mapsto> \<lparr>pimpl = pimpl src\<rparr>),
                      heap := h\<rparr>"
    and h: "h = heap st \<or> (\<exists>a. h = (heap st)[a := None])"
    and held': "\<And>r. held st' r = (if r = w2 then held st w1 else if r = w1 then None else held st r)"
    by blast
  have 1: "held st' w2 = Some v" by (simp add: held' v)
  have 2: "pimpl_of st' w2 = pimpl_of st w1" by (simp add: eq pimpl_of_def src)
  have 3: "draw fmt w1 st = Inr (st\<lparr>cout := ShapeModel_draw fmt v (cout st)\<rparr>)"
    by (rule draw_held [OF v])
  have "cout st' = cout st" by (simp add: eq)
  with draw_held [OF 1, of fmt]
  have 4: "draw fmt w2 st' = Inr (st'\<lparr>cout := ShapeModel_draw fmt v (cout st)\<rparr>)" by simp
  have 5: "length (heap st') = length (heap st)"
    using h by (auto simp add: eq)
  have 6: "\<forall>a m. deref (heap st') a = Some m \<longrightarrow> deref (heap st) a = Some m"
    using h by (auto simp add: eq deref_update split: if_splits)
  have 7: "shapes st' w1 = Some \<lparr>pimpl = None\<rparr>"
    using ne by (simp add: eq)
  have 8: "held st' w1 = None" using ne by (simp add: held')
  have 9: "draw fmt w1 st' = Inl Null_Dereference"
    by (rule draw_null [OF 7]) simp
  from st' 1 2 3 4 5 6 7 8 9 show ?thesis by blast
qed

theorem C4_move_transfers_witness:
  "well_formed (two_wrappers ''230'')
   \<and> held (two_wrappers ''230'') 1 = Some (ShapeModel_Circle (Circle ''230''))
   \<and> (0::nat) \<noteq> 1
   \<and> shapes (two_wrappers ''230'') 0 \<noteq> None
   \<and> (\<exists>st'. Shape_move_assign 0 1 (two_wrappers ''230'') = Inr st'
         \<and> held st' 0 = Some (ShapeModel_Circle (Circle ''230''))
         \<and> draw (\<lambda>d. d) 0 st' = Inr (st'\<lparr>cout := ''Circle: 230'' @ endl\<rparr>)
         \<and> draw (\<lambda>d. d) 1 st' = Inl Null_Dereference)"
proof -
  note wf = two_wrappers_well_formed [of "''230''"]
  note c = two_wrappers_held(2) [of "''230''"]
  have ne: "(0::nat) \<noteq> 1" by simp
  have a: "shapes (two_wrappers ''230'') 0 \<noteq> None"
    using two_wrappers_shapes(1) [of "''230''"] by simp
  then have sel: "Shape_move_assign = Shape_move_ctor
      \<or> Shape_move_assign = Shape_move_assign \<and> shapes (two_wrappers ''230'') 0 \<noteq> None"
    by simp
  from C4_move_transfers [where fmt = "\<lambda>d. d", OF wf c ne sel]
  obtain st' where 1: "Shape_move_assign 0 1 (two_wrappers ''230'') = Inr st'"
    and 2: "held st' 0 = Some (ShapeModel_Circle (Circle ''230''))"
    and 3: "draw (\<lambda>d. d) 0 st' =
        Inr (st'\<lparr>cout := ShapeModel_draw (\<lambda>d. d) (ShapeModel_Circle (Circle ''230''))
                            (cout (two_wrappers ''230''))\<rparr>)"
    and 4: "draw (\<lambda>d. d) 1 st' = Inl Null_Dereference"
    by (elim exE conjE)
  from 3 have "draw (\<lambda>d. d) 0 st' = Inr (st'\<lparr>cout := ''Circle: 230'' @ endl\<rparr>)"
    using two_wrappers_cout [of "''230''"] by (simp add: drawShape_Circle_def)
  with 1 2 4 have "\<exists>st'. Shape_move_assign 0 1 (two_wrappers ''230'') = Inr st'
         \<and> held st' 0 = Some (ShapeModel_Circle (Circle ''230''))
         \<and> draw (\<lambda>d. d) 0 st' = Inr (st'\<lparr>cout := ''Circle: 230'' @ endl\<rparr>)
         \<and> draw (\<lambda>d. d) 1 st' = Inl Null_Dereference"
    by (intro exI conjI)
  with wf c ne a show ?thesis by (intro conjI)
qed

section \<open>The two scenarios of main\<close>

text \<open>
  C5. Wrap a circle and then a square, both made from the same double \<open>d\<close>, in two
  different Shape objects; draw the circle wrapper; copy-assign the square wrapper to
  the circle wrapper; draw the circle wrapper again. All steps succeed, the first draw
  writes the circle's line, and the second draw writes what drawShape writes for the
  square, which is not what it writes for the circle; where the library prints \<open>d\<close>
  as \<^verbatim>\<open>230\<close>, that is the line \<^verbatim>\<open>Square: 230\<close>.
\<close>

theorem C5_assign_then_draw:
  assumes "circle \<noteq> square"
  shows "\<exists>st3 st4 st5.
      draw fmt circle
        (Shape_ctor ShapeModel_Square square (Square d)
          (Shape_ctor ShapeModel_Circle circle (Circle d) st)) = Inr st3
    \<and> cout st3 = drawShape_Circle fmt (Circle d) (cout st)
    \<and> Shape_copy_assign circle square st3 = Inr st4
    \<and> draw fmt circle st4 = Inr st5
    \<and> cout st5 = drawShape_Square fmt (Square d) (cout st4)
    \<and> cout st5 \<noteq> drawShape_Circle fmt (Circle d) (cout st4)
    \<and> (fmt d = ''230'' \<longrightarrow> cout st5 = (cout st4 @ ''Square: 230'') @ endl)"
proof -
  let ?st2 = "Shape_ctor ShapeModel_Square square (Square d)
          (Shape_ctor ShapeModel_Circle circle (Circle d) st)"
  let ?n = "length (heap st)"
  have hc: "held ?st2 circle = Some (ShapeModel_Circle (Circle d))"
    by (rule held_Shape_ctor_other [OF assms held_Shape_ctor_this])
  have hs: "held ?st2 square = Some (ShapeModel_Square (Square d))"
    by (rule held_Shape_ctor_this)
  let ?st3 = "?st2\<lparr>cout := drawShape_Circle fmt (Circle d) (cout st)\<rparr>"
  have 1: "draw fmt circle ?st2 = Inr ?st3"
    using draw_held [OF hc, of fmt] by simp
  have 2: "cout ?st3 = drawShape_Circle fmt (Circle d) (cout st)" by simp
  have hs3: "pimpl_arrow ?st3 square = Inr (ShapeModel_Square (Square d))"
    by (rule pimpl_arrow_held) (simp add: hs)
  have alive: "shapes ?st2 circle = Some \<lparr>pimpl = Some ?n\<rparr>"
    using assms by (simp add: Shape_ctor_def make_unique_def)
  have heap3: "heap ?st3 = heap st @ [Some (ShapeModel_Circle (Circle d)), Some (ShapeModel_Square (Square d))]"
    by (simp add: Shape_ctor_def make_unique_def)
  let ?st4 = "?st3\<lparr>shapes := (shapes ?st3)(circle \<mapsto> \<lparr>pimpl = Some (Suc (Suc ?n))\<rparr>),
      heap := (heap ?st3 @ [Some (ShapeModel_Square (Square d))])[?n := None],
      cout := (cout ?st3 @ ''copy assign'') @ endl\<rparr>"
  have 3: "Shape_copy_assign circle square ?st3 = Inr ?st4"
    unfolding Shape_copy_assign_def hs3 andThen_Inr ShapeModel_clone_eq
    by (simp add: alive delete_holder_def heap3 deref_def nth_append)
  have h4: "held ?st4 circle = Some (ShapeModel_Square (Square d))"
    by (simp add: held_def heap3 deref_def nth_append)
  let ?st5 = "?st4\<lparr>cout := drawShape_Square fmt (Square d) (cout ?st4)\<rparr>"
  have 4: "draw fmt circle ?st4 = Inr ?st5"
    using draw_held [OF h4, of fmt] by simp
  have 5: "cout ?st5 = drawShape_Square fmt (Square d) (cout ?st4)" by simp
  have 6: "cout ?st5 \<noteq> drawShape_Circle fmt (Circle d) (cout ?st4)"
    unfolding 5 by (rule drawShape_distinct)
  have 7: "fmt d = ''230'' \<longrightarrow> cout ?st5 = (cout ?st4 @ ''Square: 230'') @ endl"
    unfolding 5 by (simp add: drawShape_Square_def)
  from 1 2 3 4 5 6 7 show ?thesis by (intro exI conjI)
qed

theorem C5_assign_then_draw_witness:
  "(1::nat) \<noteq> 0
   \<and> (\<exists>st3 st4 st5.
      draw (\<lambda>d. d) 1
        (Shape_ctor ShapeModel_Square 0 (Square ''230'')
          (Shape_ctor ShapeModel_Circle 1 (Circle ''230'') initial)) = Inr st3
    \<and> cout st3 = ''Circle: 230'' @ endl
    \<and> Shape_copy_assign 1 0 st3 = Inr st4
    \<and> draw (\<lambda>d. d) 1 st4 = Inr st5
    \<and> cout st5 = (cout st4 @ ''Square: 230'') @ endl)"
proof -
  have ne: "(1::nat) \<noteq> 0" by simp
  from C5_assign_then_draw [OF ne, of "\<lambda>d. d" "''230''" initial]
  obtain st3 st4 st5 where "draw (\<lambda>d. d) 1
        (Shape_ctor ShapeModel_Square 0 (Square ''230'')
          (Shape_ctor ShapeModel_Circle 1 (Circle ''230'') initial)) = Inr st3"
    and "cout st3 = drawShape_Circle (\<lambda>d. d) (Circle ''230'') (cout (initial :: string state))"
    and "Shape_copy_assign 1 0 st3 = Inr st4"
    and "draw (\<lambda>d. d) 1 st4 = Inr st5"
    and "''230'' = ''230'' \<longrightarrow> cout st5 = (cout st4 @ ''Square: 230'') @ endl"
    by (elim exE conjE)
  then have "\<exists>st3 st4 st5.
      draw (\<lambda>d. d) 1
        (Shape_ctor ShapeModel_Square 0 (Square ''230'')
          (Shape_ctor ShapeModel_Circle 1 (Circle ''230'') initial)) = Inr st3
    \<and> cout st3 = ''Circle: 230'' @ endl
    \<and> Shape_copy_assign 1 0 st3 = Inr st4
    \<and> draw (\<lambda>d. d) 1 st4 = Inr st5
    \<and> cout st5 = (cout st4 @ ''Square: 230'') @ endl"
    by (simp add: drawShape_Circle_def initial_def)
  with ne show ?thesis by (intro conjI)
qed

text \<open>
  C6. The vector is the list of its three elements, each constructed in place from a
  circle, a square and a triangle, in this order. \<^verbatim>\<open>drawAllShaped\<close> succeeds and
  appends to standard output the three lines that the three drawShape overloads write
  for the three values, in the order of insertion, and the three lines are pairwise
  different.
\<close>

theorem C6_collection_in_order:
  assumes "distinct [r1, r2, r3]"
  shows "\<exists>st'.
      drawAllShaped fmt [r1, r2, r3]
        (Shape_ctor ShapeModel_Triangle r3 Triangle
          (Shape_ctor ShapeModel_Square r2 (Square d)
            (Shape_ctor ShapeModel_Circle r1 (Circle d) st))) = Inr st'
    \<and> cout st' = cout st @ drawShape_Circle fmt (Circle d) []
                          @ drawShape_Square fmt (Square d) []
                          @ drawShape_Triangle Triangle []
    \<and> distinct [drawShape_Circle fmt (Circle d) [], drawShape_Square fmt (Square d) [],
                 drawShape_Triangle Triangle []]"
proof -
  from assms have ne: "r2 \<noteq> r1" "r3 \<noteq> r1" "r3 \<noteq> r2" by auto
  let ?st1 = "Shape_ctor ShapeModel_Circle r1 (Circle d) st"
  let ?st2 = "Shape_ctor ShapeModel_Square r2 (Square d) ?st1"
  let ?st3 = "Shape_ctor ShapeModel_Triangle r3 Triangle ?st2"
  have h1: "held ?st3 r1 = Some (ShapeModel_Circle (Circle d))"
    using ne by (intro held_Shape_ctor_other held_Shape_ctor_this) auto
  have h2: "held ?st3 r2 = Some (ShapeModel_Square (Square d))"
    using ne by (intro held_Shape_ctor_other held_Shape_ctor_this) auto
  have h3: "held ?st3 r3 = Some (ShapeModel_Triangle Triangle)"
    by (rule held_Shape_ctor_this)
  let ?o1 = "drawShape_Circle fmt (Circle d) (cout st)"
  let ?o2 = "drawShape_Square fmt (Square d) ?o1"
  let ?o3 = "drawShape_Triangle Triangle ?o2"
  have d1: "draw fmt r1 ?st3 = Inr (?st3\<lparr>cout := ?o1\<rparr>)"
    using draw_held [OF h1, of fmt] by simp
  have "held (?st3\<lparr>cout := ?o1\<rparr>) r2 = Some (ShapeModel_Square (Square d))"
    unfolding held_cout by (rule h2)
  from draw_held [OF this, of fmt]
  have d2: "draw fmt r2 (?st3\<lparr>cout := ?o1\<rparr>) = Inr (?st3\<lparr>cout := ?o2\<rparr>)"
    by simp
  have "held (?st3\<lparr>cout := ?o2\<rparr>) r3 = Some (ShapeModel_Triangle Triangle)"
    unfolding held_cout by (rule h3)
  from draw_held [OF this, of fmt]
  have d3: "draw fmt r3 (?st3\<lparr>cout := ?o2\<rparr>) = Inr (?st3\<lparr>cout := ?o3\<rparr>)"
    by simp
  have run: "drawAllShaped fmt [r1, r2, r3] ?st3 = Inr (?st3\<lparr>cout := ?o3\<rparr>)"
    by (simp add: d1 d2 d3)
  have out: "cout (?st3\<lparr>cout := ?o3\<rparr>) =
      cout st @ drawShape_Circle fmt (Circle d) [] @ drawShape_Square fmt (Square d) []
        @ drawShape_Triangle Triangle []"
    by (simp add: drawShape_Circle_def drawShape_Square_def drawShape_Triangle_def)
  have dist: "distinct [drawShape_Circle fmt (Circle d) [], drawShape_Square fmt (Square d) [],
                 drawShape_Triangle Triangle []]"
    by (simp add: drawShape_Circle_def drawShape_Square_def drawShape_Triangle_def)
  from run out dist show ?thesis by (intro exI conjI)
qed

theorem C6_collection_in_order_witness:
  "distinct [0::nat, 1, 2]
   \<and> (\<exists>st'.
      drawAllShaped (\<lambda>d. d) [0, 1, 2]
        (Shape_ctor ShapeModel_Triangle 2 Triangle
          (Shape_ctor ShapeModel_Square 1 (Square ''230'')
            (Shape_ctor ShapeModel_Circle 0 (Circle ''230'') initial))) = Inr st'
    \<and> cout st' = (''Circle: 230'' @ endl) @ (''Square: 230'' @ endl)
                    @ ([CHR 0xCE, CHR 0x94] @ endl))"
proof -
  have d: "distinct [0::nat, 1, 2]" by simp
  from C6_collection_in_order [OF d, of "\<lambda>d. d" "''230''" initial]
  obtain st' where "drawAllShaped (\<lambda>d. d) [0, 1, 2]
        (Shape_ctor ShapeModel_Triangle 2 Triangle
          (Shape_ctor ShapeModel_Square 1 (Square ''230'')
            (Shape_ctor ShapeModel_Circle 0 (Circle ''230'') initial))) = Inr st'"
    and "cout st' = cout (initial :: string state) @ drawShape_Circle (\<lambda>d. d) (Circle ''230'') []
                          @ drawShape_Square (\<lambda>d. d) (Square ''230'') []
                          @ drawShape_Triangle Triangle []"
    by (elim exE conjE)
  then have "\<exists>st'.
      drawAllShaped (\<lambda>d. d) [0, 1, 2]
        (Shape_ctor ShapeModel_Triangle 2 Triangle
          (Shape_ctor ShapeModel_Square 1 (Square ''230'')
            (Shape_ctor ShapeModel_Circle 0 (Circle ''230'') initial))) = Inr st'
    \<and> cout st' = (''Circle: 230'' @ endl) @ (''Square: 230'' @ endl)
                    @ ([CHR 0xCE, CHR 0x94] @ endl)"
    by (simp add: drawShape_Circle_def drawShape_Square_def drawShape_Triangle_def initial_def)
  with d show ?thesis by (intro conjI)
qed

section \<open>Constructing a wrapper from an rvalue\<close>

text \<open>
  C7. Constructing a Shape from a concrete value always succeeds and leaves the Shape
  holding that value. A value passed to the constructor as an rvalue, however, is not
  move-constructed into the holder: the only converting constructor of Shape takes
  \<^verbatim>\<open>T const &\<close>, so for an rvalue argument, such as \<^verbatim>\<open>Square(230)\<close> in the first
  statement of main, the member \<^verbatim>\<open>object\<close> is copy-constructed. The constructor
  \<^verbatim>\<open>ShapeModel(T &&)\<close>, which would move it, is never selected, whatever the argument.
\<close>

theorem C7_rvalue_is_copied:
  "held (Shape_ctor ShapeModel_Square this (Square d) st) this = Some (ShapeModel_Square (Square d))
   \<and> Shape_ctor_object rvalue non_const = copy_constructed
   \<and> ShapeModel_ctor rvalue non_const = move_constructed
   \<and> Shape_ctor_object c k \<noteq> move_constructed"
  by (simp add: Shape_ctor_object_def)

section \<open>Drawing a wrapper that holds nothing\<close>

text \<open>
  C8. For a live Shape in a state with exclusive ownership: if it holds a value, draw
  succeeds and writes what the holder's overload writes; if its pointer is null, draw
  dereferences the null pointer. A null dereference is the only way draw can go wrong
  there, and it goes wrong exactly when the Shape holds no value, that is exactly when
  its pointer is null. After a move construction or a move assignment from the Shape to
  a different one, its pointer is null and drawing it dereferences the null pointer.
\<close>

theorem C8_unchecked_dereference:
  assumes "well_formed st" and "shapes st w = Some sh"
  shows "(\<forall>m. held st w = Some m \<longrightarrow>
            draw fmt w st = Inr (st\<lparr>cout := ShapeModel_draw fmt m (cout st)\<rparr>))
    \<and> (pimpl sh = None \<longrightarrow> draw fmt w st = Inl Null_Dereference)
    \<and> (\<forall>e. draw fmt w st = Inl e \<longrightarrow> e = Null_Dereference)
    \<and> ((\<exists>e. draw fmt w st = Inl e) \<longleftrightarrow> held st w = None)
    \<and> (held st w = None \<longleftrightarrow> pimpl sh = None)
    \<and> (\<forall>w2. w2 \<noteq> w \<longrightarrow>
          (\<exists>st'. Shape_move_ctor w2 w st = Inr st'
             \<and> shapes st' w = Some \<lparr>pimpl = None\<rparr>
             \<and> draw fmt w st' = Inl Null_Dereference))
    \<and> (\<forall>w2. w2 \<noteq> w \<and> shapes st w2 \<noteq> None \<longrightarrow>
          (\<exists>st'. Shape_move_assign w2 w st = Inr st'
             \<and> shapes st' w = Some \<lparr>pimpl = None\<rparr>
             \<and> draw fmt w st' = Inl Null_Dereference))"
proof -
  note wf = assms(1) and sh = assms(2)
  have 1: "\<forall>m. held st w = Some m \<longrightarrow>
            draw fmt w st = Inr (st\<lparr>cout := ShapeModel_draw fmt m (cout st)\<rparr>)"
    by (simp add: draw_held)
  have 2: "pimpl sh = None \<longrightarrow> draw fmt w st = Inl Null_Dereference"
    using draw_null [OF sh] by blast
  have 3: "\<forall>e. draw fmt w st = Inl e \<longrightarrow> e = Null_Dereference"
    using draw_fault_iff(3) [OF wf sh] by blast
  note 4 = draw_fault_iff(1) [OF wf sh, of fmt]
  note 5 = draw_fault_iff(2) [OF wf sh]
  have 6: "\<exists>st'. Shape_move_ctor w2 w st = Inr st'
             \<and> shapes st' w = Some \<lparr>pimpl = None\<rparr>
             \<and> draw fmt w st' = Inl Null_Dereference" if ne: "w2 \<noteq> w" for w2
  proof -
    let ?st' = "st\<lparr>shapes := ((shapes st)(w \<mapsto> \<lparr>pimpl = None\<rparr>))(w2 \<mapsto> \<lparr>pimpl = pimpl sh\<rparr>)\<rparr>"
    have a: "Shape_move_ctor w2 w st = Inr ?st'" by (rule Shape_move_ctor_alive [OF sh])
    have b: "shapes ?st' w = Some \<lparr>pimpl = None\<rparr>" using ne by simp
    have "draw fmt w ?st' = Inl Null_Dereference" by (rule draw_null [OF b]) simp
    with a b show ?thesis by blast
  qed
  have 7: "\<exists>st'. Shape_move_assign w2 w st = Inr st'
             \<and> shapes st' w = Some \<lparr>pimpl = None\<rparr>
             \<and> draw fmt w st' = Inl Null_Dereference"
    if ne: "w2 \<noteq> w" and alive: "shapes st w2 \<noteq> None" for w2
  proof -
    from alive obtain dst where dst: "shapes st w2 = Some dst" by blast
    from Shape_move_assign_alive [OF wf sh dst]
    obtain st' where a: "Shape_move_assign w2 w st = Inr st'"
      and "shapes st' = ((shapes st)(w \<mapsto> \<lparr>pimpl = None\<rparr>))(w2 \<mapsto> \<lparr>pimpl = pimpl sh\<rparr>)"
      by simp
    then have b: "shapes st' w = Some \<lparr>pimpl = None\<rparr>" using ne by simp
    have "draw fmt w st' = Inl Null_Dereference" by (rule draw_null [OF b]) simp
    with a b show ?thesis by blast
  qed
  from 1 2 3 4 5 6 7 show ?thesis by blast
qed

theorem C8_unchecked_dereference_witness:
  "well_formed (two_wrappers ''230'')
   \<and> shapes (two_wrappers ''230'') 1 = Some \<lparr>pimpl = Some 1\<rparr>
   \<and> draw (\<lambda>d. d) 1 (two_wrappers ''230'') =
       Inr ((two_wrappers ''230'')\<lparr>cout := ''Circle: 230'' @ endl\<rparr>)
   \<and> (\<exists>st'. Shape_move_ctor 2 1 (two_wrappers ''230'') = Inr st'
         \<and> shapes st' 1 = Some \<lparr>pimpl = None\<rparr>
         \<and> draw (\<lambda>d. d) 1 st' = Inl Null_Dereference)"
proof -
  note wf = two_wrappers_well_formed [of "''230''"]
  note sh = two_wrappers_shapes(2) [of "''230''"]
  note main = C8_unchecked_dereference [where fmt = "\<lambda>d. d", OF wf sh]
  note holding = main [THEN conjunct1, rule_format]
  note moved = main [THEN conjunct2, THEN conjunct2, THEN conjunct2, THEN conjunct2,
      THEN conjunct2, THEN conjunct1, rule_format]
  have d: "draw (\<lambda>d. d) 1 (two_wrappers ''230'') =
       Inr ((two_wrappers ''230'')\<lparr>cout := ''Circle: 230'' @ endl\<rparr>)"
    using holding [OF two_wrappers_held(2)] two_wrappers_cout [of "''230''"] by (simp add: drawShape_Circle_def)
  have "(2::nat) \<noteq> 1" by simp
  from moved [OF this] wf sh d show ?thesis by (intro conjI)
qed

section \<open>What the copy operations print\<close>

text \<open>
  C9. When the source holds \<open>m\<close>, copy construction succeeds, appends the line
  \<^verbatim>\<open>copy ctor\<close> to standard output and leaves the new wrapper holding \<open>m\<close>; copy
  assignment to a live wrapper succeeds, appends the line \<^verbatim>\<open>copy assign\<close> and leaves
  the destination holding \<open>m\<close>. Move construction, and move assignment to a live
  wrapper, succeed and leave standard output as it was.
\<close>

theorem C9_copies_are_logged:
  assumes "well_formed st" and "held st s = Some m"
  shows "(\<exists>st'. Shape_copy_ctor this s st = Inr st'
            \<and> cout st' = (cout st @ ''copy ctor'') @ endl \<and> held st' this = Some m)
    \<and> (shapes st this \<noteq> None \<longrightarrow>
         (\<exists>st'. Shape_copy_assign this s st = Inr st'
            \<and> cout st' = (cout st @ ''copy assign'') @ endl \<and> held st' this = Some m))
    \<and> (\<exists>st'. Shape_move_ctor this s st = Inr st' \<and> cout st' = cout st)
    \<and> (shapes st this \<noteq> None \<longrightarrow>
         (\<exists>st'. Shape_move_assign this s st = Inr st' \<and> cout st' = cout st))"
proof -
  note wf = assms(1) and m = assms(2)
  from held_alive [OF m] obtain src where src: "shapes st s = Some src" by blast
  have 1: "\<exists>st'. Shape_copy_ctor this s st = Inr st'
            \<and> cout st' = (cout st @ ''copy ctor'') @ endl \<and> held st' this = Some m"
  proof -
    from Shape_copy_ctor_held [OF m]
    obtain st' where a: "Shape_copy_ctor this s st = Inr st'"
      and b: "cout st' = (cout st @ ''copy ctor'') @ endl" by simp
    from held_Shape_copy_ctor [OF wf m a, of this] a b show ?thesis by simp
  qed
  have 2: "\<exists>st'. Shape_copy_assign this s st = Inr st'
            \<and> cout st' = (cout st @ ''copy assign'') @ endl \<and> held st' this = Some m"
    if "shapes st this \<noteq> None"
  proof -
    from that obtain dst where dst: "shapes st this = Some dst" by blast
    from Shape_copy_assign_held [OF wf m dst]
    obtain st' where a: "Shape_copy_assign this s st = Inr st'"
      and b: "cout st' = (cout st @ ''copy assign'') @ endl" by simp
    from held_Shape_copy_assign [OF wf m a, of this] a b show ?thesis by simp
  qed
  have 3: "\<exists>st'. Shape_move_ctor this s st = Inr st' \<and> cout st' = cout st"
    by (simp add: Shape_move_ctor_alive [OF src])
  have 4: "\<exists>st'. Shape_move_assign this s st = Inr st' \<and> cout st' = cout st"
    if "shapes st this \<noteq> None"
  proof -
    from that obtain dst where dst: "shapes st this = Some dst" by blast
    show ?thesis by (simp add: Shape_move_assign_alive [OF wf src dst])
  qed
  from 1 2 3 4 show ?thesis by blast
qed

theorem C9_copies_are_logged_witness:
  "well_formed (two_wrappers ''230'')
   \<and> held (two_wrappers ''230'') 0 = Some (ShapeModel_Square (Square ''230''))
   \<and> shapes (two_wrappers ''230'') 1 \<noteq> None
   \<and> (\<exists>st'. Shape_copy_ctor 2 0 (two_wrappers ''230'') = Inr st'
         \<and> cout st' = ''copy ctor'' @ endl)
   \<and> (\<exists>st'. Shape_copy_assign 1 0 (two_wrappers ''230'') = Inr st'
         \<and> cout st' = ''copy assign'' @ endl)
   \<and> (\<exists>st'. Shape_move_ctor 2 0 (two_wrappers ''230'') = Inr st' \<and> cout st' = [])
   \<and> (\<exists>st'. Shape_move_assign 1 0 (two_wrappers ''230'') = Inr st' \<and> cout st' = [])"
proof -
  note wf = two_wrappers_well_formed [of "''230''"]
  note q = two_wrappers_held(1) [of "''230''"]
  have a: "shapes (two_wrappers ''230'') 1 \<noteq> None"
    using two_wrappers_shapes(2) [of "''230''"] by simp
  note ctors = C9_copies_are_logged [where this = 2, OF wf q]
  note assigns = C9_copies_are_logged [where this = 1, OF wf q]
  from ctors [THEN conjunct1]
  have 1: "\<exists>st'. Shape_copy_ctor 2 0 (two_wrappers ''230'') = Inr st'
         \<and> cout st' = ''copy ctor'' @ endl"
    using two_wrappers_cout [of "''230''"] by auto
  from assigns [THEN conjunct2, THEN conjunct1, rule_format, OF a]
  have 2: "\<exists>st'. Shape_copy_assign 1 0 (two_wrappers ''230'') = Inr st'
         \<and> cout st' = ''copy assign'' @ endl"
    using two_wrappers_cout [of "''230''"] by auto
  from ctors [THEN conjunct2, THEN conjunct2, THEN conjunct1]
  have 3: "\<exists>st'. Shape_move_ctor 2 0 (two_wrappers ''230'') = Inr st' \<and> cout st' = []"
    using two_wrappers_cout [of "''230''"] by auto
  from assigns [THEN conjunct2, THEN conjunct2, THEN conjunct2, rule_format, OF a]
  have 4: "\<exists>st'. Shape_move_assign 1 0 (two_wrappers ''230'') = Inr st' \<and> cout st' = []"
    using two_wrappers_cout [of "''230''"] by auto
  from wf q a 1 2 3 4 show ?thesis by (intro conjI)
qed

section \<open>Copy self-assignment\<close>

text \<open>
  C10. Copy-assigning a wrapper that holds \<open>m\<close> to itself succeeds; the wrapper
  then holds \<open>m\<close> again and draws as before. The clone is allocated while the old
  holder is still on the free store, so it has a different address; the old holder is
  deleted afterwards, ownership stays exclusive and no other wrapper is affected.
\<close>

theorem C10_self_assignment:
  assumes "well_formed st" and "held st w = Some m"
  shows "\<exists>st' a. Shape_copy_assign w w st = Inr st'
      \<and> well_formed st'
      \<and> held st' w = Some m
      \<and> pimpl_of st w = Some a \<and> a < length (heap st)
      \<and> pimpl_of st' w = Some (length (heap st))
      \<and> deref (heap st') a = None
      \<and> (\<forall>r. r \<noteq> w \<longrightarrow> held st' r = held st r)
      \<and> draw fmt w st = Inr (st\<lparr>cout := ShapeModel_draw fmt m (cout st)\<rparr>)
      \<and> draw fmt w st' = Inr (st'\<lparr>cout := ShapeModel_draw fmt m (cout st')\<rparr>)"
proof -
  note wf = assms(1) and m = assms(2)
  from held_alive [OF m] obtain sh where sh: "shapes st w = Some sh" by blast
  from held_pimpl_of [OF m] obtain a where a: "pimpl_of st w = Some a"
    and da: "deref (heap st) a = Some m" by blast
  from a have pa: "pimpl sh = Some a" by (simp add: pimpl_of_def sh)
  have less: "a < length (heap st)" by (rule deref_Some_less [OF da])
  let ?st' = "st\<lparr>shapes := (shapes st)(w \<mapsto> \<lparr>pimpl = Some (length (heap st))\<rparr>),
             heap := (heap st @ [Some m])[a := None],
             cout := (cout st @ ''copy assign'') @ endl\<rparr>"
  have st': "Shape_copy_assign w w st = Inr ?st'"
    using Shape_copy_assign_held [OF wf m sh] by (simp add: pa)
  have 1: "well_formed ?st'" by (rule well_formed_Shape_copy_assign [OF wf st'])
  have h: "held ?st' r = (if r = w then Some m else held st r)" for r
    by (rule held_Shape_copy_assign [OF wf m st'])
  have 2: "held ?st' w = Some m" by (simp only: h) simp
  have 3: "pimpl_of ?st' w = Some (length (heap st))" by (simp add: pimpl_of_def)
  have 4: "deref (heap ?st') a = None" using less by (simp add: deref_update)
  have 5: "\<forall>r. r \<noteq> w \<longrightarrow> held ?st' r = held st r" by (simp only: h) simp
  have 6: "draw fmt w st = Inr (st\<lparr>cout := ShapeModel_draw fmt m (cout st)\<rparr>)"
    by (rule draw_held [OF m])
  have 7: "draw fmt w ?st' = Inr (?st'\<lparr>cout := ShapeModel_draw fmt m (cout ?st')\<rparr>)"
    by (rule draw_held [OF 2])
  from st' 1 2 a less 3 4 5 6 7 show ?thesis by blast
qed

theorem C10_self_assignment_witness:
  "well_formed (two_wrappers ''230'')
   \<and> held (two_wrappers ''230'') 1 = Some (ShapeModel_Circle (Circle ''230''))
   \<and> (\<exists>st'. Shape_copy_assign 1 1 (two_wrappers ''230'') = Inr st'
         \<and> held st' 1 = Some (ShapeModel_Circle (Circle ''230''))
         \<and> pimpl_of st' 1 = Some 2
         \<and> deref (heap st') 1 = None
         \<and> draw (\<lambda>d. d) 1 st' = Inr (st'\<lparr>cout := (cout st' @ ''Circle: 230'') @ endl\<rparr>))"
proof -
  note wf = two_wrappers_well_formed [of "''230''"]
  note c = two_wrappers_held(2) [of "''230''"]
  have p: "pimpl_of (two_wrappers ''230'') 1 = Some 1"
    using two_wrappers_shapes(2) [of "''230''"] by (simp add: pimpl_of_def)
  have l: "length (heap (two_wrappers ''230'')) = 2"
    by (simp add: Shape_ctor_def make_unique_def initial_def)
  from C10_self_assignment [where fmt = "\<lambda>d. d", OF wf c]
  obtain st' a where 1: "Shape_copy_assign 1 1 (two_wrappers ''230'') = Inr st'"
    and 2: "held st' 1 = Some (ShapeModel_Circle (Circle ''230''))"
    and 3: "pimpl_of (two_wrappers ''230'') 1 = Some a"
    and 4: "pimpl_of st' 1 = Some (length (heap (two_wrappers ''230'')))"
    and 5: "deref (heap st') a = None"
    and 6: "draw (\<lambda>d. d) 1 st' =
        Inr (st'\<lparr>cout := ShapeModel_draw (\<lambda>d. d) (ShapeModel_Circle (Circle ''230'')) (cout st')\<rparr>)"
    by (elim exE conjE)
  from 3 p have "a = 1" by simp
  with 5 have e5: "deref (heap st') 1 = None" by simp
  from 4 l have e4: "pimpl_of st' 1 = Some 2" by simp
  from 6 have e6: "draw (\<lambda>d. d) 1 st' = Inr (st'\<lparr>cout := (cout st' @ ''Circle: 230'') @ endl\<rparr>)"
    by (simp add: drawShape_Circle_def)
  from 1 2 e4 e5 e6 have "\<exists>st'. Shape_copy_assign 1 1 (two_wrappers ''230'') = Inr st'
         \<and> held st' 1 = Some (ShapeModel_Circle (Circle ''230''))
         \<and> pimpl_of st' 1 = Some 2
         \<and> deref (heap st') 1 = None
         \<and> draw (\<lambda>d. d) 1 st' = Inr (st'\<lparr>cout := (cout st' @ ''Circle: 230'') @ endl\<rparr>)"
    by (intro exI conjI)
  with wf c show ?thesis by (intro conjI)
qed

end
